theory Spec2Isabelle
  imports Complex_Main "HOL-Library.List_Lexorder" "HOL-Library.AList"
begin

section \<open>Values shared by the scripts\<close>

text \<open>
  A Python \<open>str\<close> is a sequence of Unicode code points: \<open>len\<close> counts code points and
  comparison is lexicographic on them. A code point is a natural number here, so the order
  on \<open>pystr\<close> (the lexicographic order of lists) is the order Python's \<open>sorted\<close> uses.
  Python's \<open>float\<close> is idealised as \<open>real\<close>: the formulas are the source's, the binary
  rounding of each operation is left out. Python's \<open>int\<close> is \<open>int\<close>.
\<close>

type_synonym pystr = "nat list"

definition str :: "string \<Rightarrow> pystr" where
  "str s = map of_char s"

datatype py_error = KeyError pystr | ZeroDivisionError | FileNotFoundError | JSONDecodeError pystr

text \<open>Sequencing of two steps, the first of which may raise.\<close>

definition bind_err :: "py_error + 'a \<Rightarrow> ('a \<Rightarrow> py_error + 'b) \<Rightarrow> py_error + 'b" where
  "bind_err m f = (case m of Inl e \<Rightarrow> Inl e | Inr v \<Rightarrow> f v)"

text \<open>\<open>d[k]\<close> on a field that may be absent from the dictionary.\<close>

definition getitem :: "string \<Rightarrow> 'a option \<Rightarrow> py_error + 'a" where
  "getitem k field = (case field of None \<Rightarrow> Inl (KeyError (str k)) | Some v \<Rightarrow> Inr v)"

text \<open>\<open>d.get(k, default)\<close>.\<close>

definition get_default :: "'a option \<Rightarrow> 'a \<Rightarrow> 'a" where
  "get_default field d = (case field of None \<Rightarrow> d | Some v \<Rightarrow> v)"

text \<open>\<open>a / b\<close> on numbers.\<close>

definition truediv :: "real \<Rightarrow> real \<Rightarrow> py_error + real" where
  "truediv a b = (if b = 0 then Inl ZeroDivisionError else Inr (a / b))"

text \<open>
  \<open>round(x, n)\<close>: the nearest multiple of \<open>10 ^ -n\<close>, an exact tie going to the even
  neighbour. The source rounds a binary float, which is not the exact quotient it stands
  for: where the exact value is a decimal tie (23 of 80 is 28.75 percent) the float lies
  to one side of it (28.749999999999996) and \<open>round\<close> follows the float. So a rounded
  value is determined here up to the choice between the two neighbours at an exact tie,
  and what is proved of a rounded value does not rest on that choice.
\<close>

definition py_round :: "real \<Rightarrow> nat \<Rightarrow> real" where
  "py_round x n =
     (let y = x * 10 ^ n; f = \<lfloor>y\<rfloor>; d = y - of_int f
      in (if d < 1 / 2 then of_int f
          else if 1 / 2 < d then of_int (f + 1)
          else if even f then of_int f else of_int (f + 1)) / 10 ^ n)"

section \<open>utils.py\<close>

subsection \<open>calculate_tokens_cost\<close>

text \<open>The price table: model name, price per 1K input tokens, price per 1K output tokens.\<close>

definition pricing :: "(pystr \<times> (real \<times> real)) list" where
  "pricing = [(str ''gpt-4'', (0.03, 0.06)),
              (str ''gpt-4-turbo'', (0.01, 0.03)),
              (str ''gpt-4o'', (0.005, 0.015))]"

definition calculate_tokens_cost :: "int \<Rightarrow> int \<Rightarrow> pystr \<Rightarrow> py_error + real" where
  "calculate_tokens_cost input_tokens output_tokens model =
     (let model = (if model \<notin> set (map fst pricing) then str ''gpt-4'' else model)
      in case map_of pricing model of
           None \<Rightarrow> Inl (KeyError model)
         | Some (input_rate, output_rate) \<Rightarrow>
             Inr ((real_of_int input_tokens / 1000) * input_rate
                  + (real_of_int output_tokens / 1000) * output_rate))"

subsection \<open>format_response_data\<close>

text \<open>
  A Result record is a dictionary. Every field may be absent from a dictionary read back
  from a file, so every field is optional; \<open>category\<close> and \<open>error\<close> are added by the
  runners after the formatter has built the record.
\<close>

record result =
  prompt_id :: "pystr option"
  model :: "pystr option"
  response :: "pystr option"
  latency_seconds :: "real option"
  input_tokens :: "int option"
  output_tokens :: "int option"
  total_tokens :: "int option"
  cost_usd :: "real option"
  timestamp :: "pystr option"
  response_length :: "int option"
  words_count :: "int option"
  category :: "pystr option"
  error :: "bool option"

text \<open>\<open>c.isspace()\<close> for one code point: the characters \<open>str.split()\<close> separates at.\<close>

definition isspace :: "nat \<Rightarrow> bool" where
  "isspace c \<longleftrightarrow>
     (9 \<le> c \<and> c \<le> 13) \<or> (28 \<le> c \<and> c \<le> 32) \<or> c = 133 \<or> c = 160 \<or> c = 5760
     \<or> (8192 \<le> c \<and> c \<le> 8202) \<or> c = 8232 \<or> c = 8233 \<or> c = 8239 \<or> c = 8287
     \<or> c = 12288"

text \<open>
  \<open>s.split()\<close> with no separator: skip the whitespace, stop at the end of the string,
  otherwise cut the word that runs to the next whitespace and go on behind it.
\<close>

function split :: "pystr \<Rightarrow> pystr list" where
  "split s =
     (case dropWhile isspace s of
        [] \<Rightarrow> []
      | c # cs \<Rightarrow> (c # takeWhile (\<lambda>x. \<not> isspace x) cs) # split (dropWhile (\<lambda>x. \<not> isspace x) cs))"
  by pat_completeness auto
termination
proof (relation "measure length")
  show "wf (measure length)" by simp
next
  fix s :: pystr and c cs
  assume "dropWhile isspace s = c # cs"
  then have "length s \<ge> Suc (length cs)"
    using length_dropWhile_le [of isspace s] by simp
  moreover have "length (dropWhile (\<lambda>x. \<not> isspace x) cs) \<le> length cs"
    by (rule length_dropWhile_le)
  ultimately show "(dropWhile (\<lambda>x. \<not> isspace x) cs, s) \<in> measure length" by simp
qed

declare split.simps [simp del]

text \<open>
  The clock is outside the program: \<open>now\<close> stands for \<open>datetime.now().isoformat()\<close> at
  the moment of the call. The defaults of the source's keyword parameters are
  \<open>input_tokens = 0\<close>, \<open>output_tokens = 0\<close>, \<open>cost = 0.0\<close>.
\<close>

definition format_response_data ::
  "pystr \<Rightarrow> pystr \<Rightarrow> pystr \<Rightarrow> real \<Rightarrow> int \<Rightarrow> int \<Rightarrow> real \<Rightarrow> pystr \<Rightarrow> result" where
  "format_response_data now pid resp latency in_tokens out_tokens cost mdl =
     \<lparr> prompt_id = Some pid,
       model = Some mdl,
       response = Some resp,
       latency_seconds = Some (py_round latency 3),
       input_tokens = Some in_tokens,
       output_tokens = Some out_tokens,
       total_tokens = Some (in_tokens + out_tokens),
       cost_usd = Some (py_round cost 6),
       timestamp = Some now,
       response_length = Some (int (length resp)),
       words_count = Some (int (length (split resp))),
       category = None,
       error = None \<rparr>"

text \<open>
  The number of whitespace-delimited tokens of a string, as the specification words it:
  the number of places where a word starts, that is a character that is not whitespace
  and stands first or behind a whitespace character. The flag tells whether the
  previous character was whitespace (or there was none).
\<close>

fun count_tokens :: "bool \<Rightarrow> pystr \<Rightarrow> nat" where
  "count_tokens prev_space [] = 0"
| "count_tokens prev_space (c # cs) =
     (if isspace c then count_tokens True cs
      else (if prev_space then 1 else 0) + count_tokens False cs)"

subsection \<open>log_error\<close>

text \<open>
  The log file is a list of lines; \<open>log_error\<close> appends one. \<open>if prompt_id:\<close> is false
  for \<open>None\<close> and for the empty string.
\<close>

definition log_error :: "pystr \<Rightarrow> pystr \<Rightarrow> pystr option \<Rightarrow> pystr list \<Rightarrow> pystr list" where
  "log_error now error_msg pid log_file =
     (let log_entry = str ''['' @ now @ str ''] Error'';
          log_entry = (case pid of
                         None \<Rightarrow> log_entry
                       | Some p \<Rightarrow> if p = [] then log_entry
                                  else log_entry @ str '' (Prompt: '' @ p @ str '')'');
          log_entry = log_entry @ str '': '' @ error_msg @ [10]
      in log_file @ [log_entry])"

subsection \<open>load_prompts\<close>

text \<open>
  The files are a map from paths to contents; \<open>open\<close> raises for a path that is not
  there. \<open>json.load\<close> belongs to the standard library: it is a parameter \<open>json_load\<close>
  that returns the parsed value or raises \<open>JSONDecodeError\<close>. \<open>load_prompts\<close> has
  no handler.
\<close>

type_synonym files = "pystr \<rightharpoonup> pystr"

definition open_read :: "files \<Rightarrow> pystr \<Rightarrow> py_error + pystr" where
  "open_read fs file_path =
     (case fs file_path of None \<Rightarrow> Inl FileNotFoundError | Some text \<Rightarrow> Inr text)"

definition load_prompts :: "(pystr \<Rightarrow> py_error + 'a) \<Rightarrow> files \<Rightarrow> pystr \<Rightarrow> py_error + 'a" where
  "load_prompts json_load fs file_path = bind_err (open_read fs file_path) json_load"

section \<open>run_prompts_openai.py and run_prompts_local.py\<close>

text \<open>
  A prompt is a dictionary read from a prompt file; the runner reads \<open>prompt['id']\<close> and
  \<open>prompt['content']\<close>.
\<close>

record prompt =
  ident :: "pystr option"
  content :: "pystr option"

text \<open>
  What \<open>send_prompt\<close> returns: on success the response text, the latency, the two token
  counts and the cost; on failure the text of the exception and the latency.
\<close>

datatype api_result =
    Success pystr real int int real
  | Failure pystr real

text \<open>
  The network and the clock are outside the program. They are a world \<open>'w\<close> that every
  request and every reading of the clock may change. A client is its model name
  (\<open>client.model\<close> in the hosted runner, \<open>client.model_name\<close> in the local one) and its
  \<open>send_prompt\<close>; \<open>now\<close> is \<open>datetime.now().isoformat()\<close>.
\<close>

record 'w client =
  model_name :: pystr
  send_prompt :: "pystr \<Rightarrow> 'w \<Rightarrow> api_result \<times> 'w"

text \<open>
  \<open>run_prompt_category\<close> is the same function in both runners, up to the name of the
  client's model attribute, the messages printed and the length of the pause after each
  prompt, none of which reaches the records. The state is the world and the error log.
  A missing key ends the run with the exception, at the place where the source reads it:
  \<open>prompt['id']\<close> in the progress message, then \<open>prompt['content']\<close>.
\<close>

fun run_loop ::
  "'w client \<Rightarrow> ('w \<Rightarrow> pystr \<times> 'w) \<Rightarrow> pystr \<Rightarrow> prompt list \<Rightarrow> result list \<Rightarrow> 'w \<times> pystr list
     \<Rightarrow> (py_error + result list) \<times> ('w \<times> pystr list)" where
  "run_loop client now cat [] results st = (Inr results, st)"
| "run_loop client now cat (p # ps) results (w, log_file) =
     (case getitem ''id'' (ident p) of
        Inl e \<Rightarrow> (Inl e, (w, log_file))
      | Inr pid \<Rightarrow>
     (case getitem ''content'' (content p) of
        Inl e \<Rightarrow> (Inl e, (w, log_file))
      | Inr c \<Rightarrow>
     (case send_prompt client c w of
        (Success resp latency in_tokens out_tokens cost, w1) \<Rightarrow>
          (case now w1 of (ts, w2) \<Rightarrow>
             run_loop client now cat ps
               (results @ [(format_response_data ts pid resp latency in_tokens out_tokens cost
                              (model_name client)) \<lparr> category := Some cat \<rparr>])
               (w2, log_file))
      | (Failure err latency, w1) \<Rightarrow>
          (case now w1 of (ts, w2) \<Rightarrow>
           case now w2 of (ts', w3) \<Rightarrow>
             run_loop client now cat ps
               (results @ [(format_response_data ts' pid (str ''ERROR: '' @ err) latency 0 0 0
                              (model_name client)) \<lparr> category := Some cat, error := Some True \<rparr>])
               (w3, log_error ts (str ''Failed to process prompt '' @ pid @ str '': '' @ err)
                      (Some pid) log_file)))))"

definition run_prompt_category ::
  "'w client \<Rightarrow> ('w \<Rightarrow> pystr \<times> 'w) \<Rightarrow> prompt list \<Rightarrow> pystr \<Rightarrow> 'w \<times> pystr list
     \<Rightarrow> (py_error + result list) \<times> ('w \<times> pystr list)" where
  "run_prompt_category client now prompts cat st = run_loop client now cat prompts [] st"

text \<open>
  The outcomes of the requests of one run, in the order they are made: the first prompt is
  sent in the world the run starts in, each later one in the world the earlier requests and
  clock readings have left.
\<close>

fun api_results :: "'w client \<Rightarrow> ('w \<Rightarrow> pystr \<times> 'w) \<Rightarrow> prompt list \<Rightarrow> 'w \<Rightarrow> api_result list" where
  "api_results client now [] w = []"
| "api_results client now (p # ps) w =
     (case (ident p, content p) of
        (Some pid, Some c) \<Rightarrow>
          (case send_prompt client c w of
             (Success resp latency in_tokens out_tokens cost, w1) \<Rightarrow>
               Success resp latency in_tokens out_tokens cost
                 # api_results client now ps (snd (now w1))
           | (Failure err latency, w1) \<Rightarrow>
               Failure err latency # api_results client now ps (snd (now (snd (now w1)))))
      | _ \<Rightarrow> [])"

text \<open>What one record of the run has to be for the outcome of its request.\<close>

fun record_of_outcome :: "api_result \<Rightarrow> result \<Rightarrow> bool" where
  "record_of_outcome (Success resp latency in_tokens out_tokens cost) r \<longleftrightarrow>
     error r = None \<and> response r = Some resp"
| "record_of_outcome (Failure err latency) r \<longleftrightarrow>
     error r = Some True \<and> response r = Some (str ''ERROR: '' @ err) \<and> response r \<noteq> Some []"

section \<open>compare_outputs.py\<close>

subsection \<open>load_results\<close>

text \<open>
  \<open>load_results\<close> wraps the same two calls in a \<open>try\<close> with two handlers, each of which
  prints a message and returns the empty list; any other exception passes through.
\<close>

definition load_results ::
  "(pystr \<Rightarrow> py_error + 'a list) \<Rightarrow> files \<Rightarrow> pystr \<Rightarrow> py_error + 'a list" where
  "load_results json_load fs file_path =
     (case bind_err (open_read fs file_path) json_load of
        Inr v \<Rightarrow> Inr v
      | Inl FileNotFoundError \<Rightarrow> Inr []
      | Inl (JSONDecodeError e) \<Rightarrow> Inr []
      | Inl other \<Rightarrow> Inl other)"

subsection \<open>create_side_by_side_comparison\<close>

text \<open>
  The Comparison record is built by a dictionary display, so all its fields are there.
\<close>

record side =
  side_model :: pystr
  side_response :: pystr
  side_latency_seconds :: real
  side_total_tokens :: int
  side_cost_usd :: real
  side_response_length :: int
  side_words_count :: int
  has_error :: bool

record metrics =
  latency_ratio :: real
  length_ratio :: real
  cost_savings :: real
  both_successful :: bool

record comparison =
  cmp_prompt_id :: pystr
  cmp_category :: pystr
  openai :: side
  local :: side
  comparison_metrics :: metrics

text \<open>
  \<open>{result['prompt_id']: result for result in results}\<close>: a dictionary keeps its keys in
  the order of their first insertion, and a later value replaces an earlier one under the
  same key.
\<close>

fun build_lookup :: "result list \<Rightarrow> (pystr \<times> result) list \<Rightarrow> py_error + (pystr \<times> result) list" where
  "build_lookup [] d = Inr d"
| "build_lookup (r # rs) d =
     bind_err (getitem ''prompt_id'' (prompt_id r)) (\<lambda>k. build_lookup rs (AList.update k r d))"

text \<open>
  The dictionary display of one comparison. Its entries are evaluated from top to bottom,
  so the first missing key in that order is the one reported.
\<close>

definition build_comparison :: "pystr \<Rightarrow> result \<Rightarrow> result \<Rightarrow> py_error + comparison" where
  "build_comparison pid openai_result local_result =
     bind_err (getitem ''model'' (model openai_result)) (\<lambda>o_model.
     bind_err (getitem ''response'' (response openai_result)) (\<lambda>o_response.
     bind_err (getitem ''latency_seconds'' (latency_seconds openai_result)) (\<lambda>o_latency.
     bind_err (getitem ''response_length'' (response_length openai_result)) (\<lambda>o_length.
     bind_err (getitem ''model'' (model local_result)) (\<lambda>l_model.
     bind_err (getitem ''response'' (response local_result)) (\<lambda>l_response.
     bind_err (getitem ''latency_seconds'' (latency_seconds local_result)) (\<lambda>l_latency.
     bind_err (getitem ''response_length'' (response_length local_result)) (\<lambda>l_length.
     bind_err (truediv l_latency (max o_latency 0.001)) (\<lambda>lat_ratio.
     bind_err (truediv (real_of_int l_length) (real_of_int (max o_length 1))) (\<lambda>len_ratio.
     Inr \<lparr> cmp_prompt_id = pid,
           cmp_category = get_default (category openai_result) (str ''unknown''),
           openai = \<lparr> side_model = o_model,
                      side_response = o_response,
                      side_latency_seconds = o_latency,
                      side_total_tokens = get_default (total_tokens openai_result) 0,
                      side_cost_usd = get_default (cost_usd openai_result) 0,
                      side_response_length = o_length,
                      side_words_count = get_default (words_count openai_result) 0,
                      has_error = get_default (error openai_result) False \<rparr>,
           local = \<lparr> side_model = l_model,
                     side_response = l_response,
                     side_latency_seconds = l_latency,
                     side_total_tokens = get_default (total_tokens local_result) 0,
                     side_cost_usd = 0,
                     side_response_length = l_length,
                     side_words_count = get_default (words_count local_result) 0,
                     has_error = get_default (error local_result) False \<rparr>,
           comparison_metrics =
             \<lparr> latency_ratio = lat_ratio,
               length_ratio = len_ratio,
               cost_savings = get_default (cost_usd openai_result) 0,
               both_successful = (\<not> (get_default (error openai_result) False
                                      \<or> get_default (error local_result) False)) \<rparr> \<rparr>))))))))))"

text \<open>The loop over the sorted common prompt ids, appending to \<open>comparisons\<close>.\<close>

fun build_all ::
  "pystr list \<Rightarrow> (pystr \<times> result) list \<Rightarrow> (pystr \<times> result) list \<Rightarrow> comparison list
     \<Rightarrow> py_error + comparison list" where
  "build_all [] openai_lookup local_lookup comparisons = Inr comparisons"
| "build_all (pid # pids) openai_lookup local_lookup comparisons =
     (case map_of openai_lookup pid of
        None \<Rightarrow> Inl (KeyError pid)
      | Some openai_result \<Rightarrow>
     (case map_of local_lookup pid of
        None \<Rightarrow> Inl (KeyError pid)
      | Some local_result \<Rightarrow>
         bind_err (build_comparison pid openai_result local_result) (\<lambda>c.
           build_all pids openai_lookup local_lookup (comparisons @ [c]))))"

definition create_side_by_side_comparison ::
  "result list \<Rightarrow> result list \<Rightarrow> py_error + comparison list" where
  "create_side_by_side_comparison openai_results local_results =
     bind_err (build_lookup openai_results []) (\<lambda>openai_lookup.
     bind_err (build_lookup local_results []) (\<lambda>local_lookup.
       let common_prompts = set (map fst openai_lookup) \<inter> set (map fst local_lookup)
       in if common_prompts = {} then Inr []
          else build_all (sorted_list_of_set common_prompts) openai_lookup local_lookup []))"

text \<open>
  The prompt ids of a result set, and the record a prompt id stands for when the set is
  indexed by prompt id: the last one that carries it.
\<close>

definition prompt_ids :: "result list \<Rightarrow> pystr set" where
  "prompt_ids rs = {k. \<exists>r \<in> set rs. prompt_id r = Some k}"

definition indexed :: "result list \<Rightarrow> pystr \<Rightarrow> result option" where
  "indexed rs k = find (\<lambda>r. prompt_id r = Some k) (rev rs)"

text \<open>
  The comparison for a prompt id is built from the two records that the indexed sets hold
  under that id.
\<close>

definition joined :: "result list \<Rightarrow> result list \<Rightarrow> pystr \<Rightarrow> comparison \<Rightarrow> bool" where
  "joined a b pid c \<longleftrightarrow>
     (\<exists>h l. indexed a pid = Some h \<and> indexed b pid = Some l \<and> build_comparison pid h l = Inr c)"

text \<open>
  A record has the fields that the formatter always writes and the comparator reads by
  subscript.
\<close>

definition well_formed :: "result \<Rightarrow> bool" where
  "well_formed r \<longleftrightarrow>
     prompt_id r \<noteq> None \<and> model r \<noteq> None \<and> response r \<noteq> None
     \<and> latency_seconds r \<noteq> None \<and> response_length r \<noteq> None"

subsection \<open>generate_performance_analysis\<close>

record category_stats =
  cat_count :: int
  cat_avg_latency_ratio :: real
  cat_avg_length_ratio :: real
  cat_total_cost_savings :: real

record overview =
  total_comparisons :: nat
  successful_comparisons :: nat
  success_rate :: real
  avg_latency_ratio :: real
  avg_response_length_ratio :: real
  total_cost_savings :: real

text \<open>
  The summary sentences: the word chosen and the number that the source then formats with
  one (or four) decimals. The formatting of a number as text is not modelled.
\<close>

record performance_summary =
  local_vs_openai_speed :: "pystr \<times> real"
  local_vs_openai_length :: "pystr \<times> real"
  cost_efficiency :: real

datatype analysis =
    AnalysisError pystr
  | Analysis overview performance_summary "(pystr \<times> category_stats) list"

text \<open>
  One round of the first loop over the successful comparisons: the entry of the category
  is created with zeros if it is not there, then the four fields are increased. The entry
  is there when it is read, so the lookup has no branch that raises.
\<close>

definition accumulate ::
  "comparison \<Rightarrow> (pystr \<times> category_stats) list \<Rightarrow> (pystr \<times> category_stats) list" where
  "accumulate c category_analysis =
     (let cat = cmp_category c;
          category_analysis =
            (if cat \<notin> set (map fst category_analysis)
             then AList.update cat
                    \<lparr> cat_count = 0, cat_avg_latency_ratio = 0, cat_avg_length_ratio = 0,
                      cat_total_cost_savings = 0 \<rparr> category_analysis
             else category_analysis)
      in case map_of category_analysis cat of
           None \<Rightarrow> category_analysis
         | Some e \<Rightarrow>
             AList.update cat
               \<lparr> cat_count = cat_count e + 1,
                 cat_avg_latency_ratio =
                   cat_avg_latency_ratio e + latency_ratio (comparison_metrics c),
                 cat_avg_length_ratio =
                   cat_avg_length_ratio e + length_ratio (comparison_metrics c),
                 cat_total_cost_savings =
                   cat_total_cost_savings e + cost_savings (comparison_metrics c) \<rparr>
               category_analysis)"

text \<open>The second loop: the two sums of every category are divided by its count.\<close>

fun average_categories ::
  "(pystr \<times> category_stats) list \<Rightarrow> py_error + (pystr \<times> category_stats) list" where
  "average_categories [] = Inr []"
| "average_categories ((cat, e) # rest) =
     bind_err (truediv (cat_avg_latency_ratio e) (real_of_int (cat_count e))) (\<lambda>lat.
     bind_err (truediv (cat_avg_length_ratio e) (real_of_int (cat_count e))) (\<lambda>len.
     bind_err (average_categories rest) (\<lambda>rest'.
       Inr ((cat, e \<lparr> cat_avg_latency_ratio := lat, cat_avg_length_ratio := len \<rparr>) # rest'))))"

definition generate_performance_analysis :: "comparison list \<Rightarrow> py_error + analysis" where
  "generate_performance_analysis comparisons =
     (if comparisons = [] then Inr (AnalysisError (str ''No comparisons available''))
      else
        let successful = filter (\<lambda>c. both_successful (comparison_metrics c)) comparisons
        in if successful = []
           then Inr (AnalysisError (str ''No successful comparisons available''))
           else
             let total = length comparisons in
             bind_err (truediv (real (length successful)) (real total)) (\<lambda>successful_rate.
             let latency_ratios = map (\<lambda>c. latency_ratio (comparison_metrics c)) successful in
             bind_err (truediv (sum_list latency_ratios) (real (length latency_ratios)))
               (\<lambda>avg_latency.
             let length_ratios = map (\<lambda>c. length_ratio (comparison_metrics c)) successful in
             bind_err (truediv (sum_list length_ratios) (real (length length_ratios)))
               (\<lambda>avg_length.
             let total_openai_cost = sum_list (map (\<lambda>c. side_cost_usd (openai c)) successful) in
             bind_err (average_categories (fold accumulate successful []))
               (\<lambda>category_analysis.
             Inr (Analysis
                    \<lparr> total_comparisons = total,
                      successful_comparisons = length successful,
                      success_rate = py_round (successful_rate * 100) 1,
                      avg_latency_ratio = py_round avg_latency 2,
                      avg_response_length_ratio = py_round avg_length 2,
                      total_cost_savings = py_round total_openai_cost 4 \<rparr>
                    \<lparr> local_vs_openai_speed =
                        (if avg_latency < 1 then str ''Faster'' else str ''Slower'',
                         \<bar>1 - avg_latency\<bar>),
                      local_vs_openai_length =
                        (if avg_length < 1 then str ''Shorter'' else str ''Longer'',
                         \<bar>1 - avg_length\<bar>),
                      cost_efficiency = total_openai_cost \<rparr>
                    category_analysis))))))"

text \<open>The comparisons the analysis is restricted to.\<close>

definition successful_of :: "comparison list \<Rightarrow> comparison list" where
  "successful_of cs = filter (\<lambda>c. both_successful (comparison_metrics c)) cs"

section \<open>Sample data\<close>

text \<open>
  One hosted and one local record for a prompt id, with the figures of the end-to-end
  scenario (latencies 2 and 4, hosted cost 0.05), and the Comparison record the comparator
  builds from the pair. The hosted record carries the error flag when \<open>failed\<close> is set.
\<close>

definition sample_hosted :: "pystr \<Rightarrow> bool \<Rightarrow> result" where
  "sample_hosted pid failed =
     \<lparr> prompt_id = Some pid, model = Some (str ''gpt-4''), response = Some (str ''four''),
       latency_seconds = Some 2, input_tokens = Some 10, output_tokens = Some 1,
       total_tokens = Some 11, cost_usd = Some 0.05,
       timestamp = Some (str ''2024-05-01T10:00:00''), response_length = Some 4,
       words_count = Some 1, category = Some (str ''reasoning''),
       error = (if failed then Some True else None) \<rparr>"

definition sample_local :: "pystr \<Rightarrow> result" where
  "sample_local pid =
     \<lparr> prompt_id = Some pid, model = Some (str ''gpt-oss-20b''), response = Some (str ''4!''),
       latency_seconds = Some 4, input_tokens = Some 0, output_tokens = Some 0,
       total_tokens = Some 0, cost_usd = Some 0,
       timestamp = Some (str ''2024-05-01T11:00:00''), response_length = Some 2,
       words_count = Some 1, category = Some (str ''coding''), error = None \<rparr>"

definition sample_comparison :: "pystr \<Rightarrow> bool \<Rightarrow> comparison" where
  "sample_comparison pid failed =
     \<lparr> cmp_prompt_id = pid,
       cmp_category = str ''reasoning'',
       openai = \<lparr> side_model = str ''gpt-4'', side_response = str ''four'',
                  side_latency_seconds = 2, side_total_tokens = 11, side_cost_usd = 0.05,
                  side_response_length = 4, side_words_count = 1, has_error = failed \<rparr>,
       local = \<lparr> side_model = str ''gpt-oss-20b'', side_response = str ''4!'',
                 side_latency_seconds = 4, side_total_tokens = 0, side_cost_usd = 0,
                 side_response_length = 2, side_words_count = 1, has_error = False \<rparr>,
       comparison_metrics = \<lparr> latency_ratio = 2, length_ratio = 1 / 2, cost_savings = 0.05,
                              both_successful = (\<not> failed) \<rparr> \<rparr>"

text \<open>A prompt id made of a letter and the four decimal digits of a number.\<close>

definition numbered :: "nat \<Rightarrow> pystr" where
  "numbered n =
     str ''q'' @ map (\<lambda>d. 48 + d) [n div 1000 mod 10, n div 100 mod 10, n div 10 mod 10, n mod 10]"

text \<open>
  A reader that stands for \<open>json.load\<close> on the two texts of the example: the empty array
  parses, an opening brace alone is rejected as \<open>json.load\<close> rejects it.
\<close>

definition sample_json_load :: "pystr \<Rightarrow> py_error + result list" where
  "sample_json_load text =
     (if text = str ''[]'' then Inr []
      else Inl (JSONDecodeError (str ''Expecting property name enclosed in double quotes'')))"

text \<open>
  A client whose world is the number of requests made so far: every second request times
  out. The clock reading does not change that world.
\<close>

definition sample_client :: "nat client" where
  "sample_client =
     \<lparr> model_name = str ''gpt-4'',
       send_prompt = (\<lambda>c w. (if even w then Success (str ''four'') 2 10 1 0.0009
                               else Failure (str ''timed out'') 60, Suc w)) \<rparr>"

definition sample_now :: "nat \<Rightarrow> pystr \<times> nat" where
  "sample_now w = (str ''2024-05-01T10:00:00'', w)"

definition sample_prompt :: "nat \<Rightarrow> prompt" where
  "sample_prompt n = \<lparr> ident = Some (numbered n), content = Some (str ''What is 2 + 2?'') \<rparr>"

text \<open>
  Two long runs of comparisons under distinct prompt ids, with a single success: at the
  end of \<open>n\<close> failures, and in front of them.
\<close>

definition sample_run :: "nat \<Rightarrow> comparison list" where
  "sample_run n =
     map (\<lambda>k. sample_comparison (numbered k) True) [0..<n] @ [sample_comparison (numbered n) False]"

definition sample_run_front :: "nat \<Rightarrow> comparison list" where
  "sample_run_front n =
     sample_comparison (numbered 0) False
       # map (\<lambda>k. sample_comparison (numbered (Suc k)) True) [0..<n]"

section \<open>Properties\<close>

lemma str_gpt4_neq_turbo: "str ''gpt-4'' \<noteq> str ''gpt-4-turbo''"
  by (simp add: str_def)

lemma str_gpt4_neq_4o: "str ''gpt-4'' \<noteq> str ''gpt-4o''"
  by (simp add: str_def)

lemma str_turbo_neq_4o: "str ''gpt-4-turbo'' \<noteq> str ''gpt-4o''"
  by (simp add: str_def)

lemmas model_names_distinct =
  str_gpt4_neq_turbo str_gpt4_neq_4o str_turbo_neq_4o
  str_gpt4_neq_turbo [symmetric] str_gpt4_neq_4o [symmetric] str_turbo_neq_4o [symmetric]

subsection \<open>The pricing table\<close>

text \<open>
  C5. For all token counts and every model name, the hosted cost is
  \<open>(input_tokens / 1000) * input_rate + (output_tokens / 1000) * output_rate\<close> with the
  rates of the model's entry in the price table; a model name that is not in the table is
  priced with the rates of \<open>gpt-4\<close> (0.03 and 0.06), so the call neither raises nor
  returns zero for it.
\<close>

theorem calculate_tokens_cost_table:
  "(\<forall>(name, input_rate, output_rate) \<in> set pricing.
      calculate_tokens_cost i t name
        = Inr ((real_of_int i / 1000) * input_rate + (real_of_int t / 1000) * output_rate))
   \<and> (m \<notin> fst ` set pricing \<longrightarrow>
        calculate_tokens_cost i t m = calculate_tokens_cost i t (str ''gpt-4'')
        \<and> calculate_tokens_cost i t m
            = Inr ((real_of_int i / 1000) * 0.03 + (real_of_int t / 1000) * 0.06))"
  by (auto simp: calculate_tokens_cost_def pricing_def model_names_distinct Let_def)

theorem calculate_tokens_cost_table_witness:
  "(str ''gpt-4o'', 0.005, 0.015) \<in> set pricing
   \<and> calculate_tokens_cost 1000 2000 (str ''gpt-4o'') = Inr 0.035
   \<and> str ''llama'' \<notin> fst ` set pricing
   \<and> calculate_tokens_cost 1000 2000 (str ''llama'') = Inr 0.15"
proof -
  have a: "(str ''gpt-4o'', 0.005, 0.015) \<in> set pricing" by (simp add: pricing_def)
  have b: "str ''llama'' \<notin> fst ` set pricing" by (simp add: pricing_def str_def)
  from calculate_tokens_cost_table [of 1000 2000 "str ''llama''"] a b show ?thesis
    by auto
qed

subsection \<open>The record formatter\<close>

lemma count_tokens_skip_space: "count_tokens True s = count_tokens True (dropWhile isspace s)"
  by (induction s) simp_all

lemma count_tokens_skip_word:
  "count_tokens False s = count_tokens True (dropWhile (\<lambda>x. \<not> isspace x) s)"
  by (induction s) simp_all

lemma split_count: "length (split s) = count_tokens True s"
proof (induction s rule: split.induct)
  case (1 s)
  show ?case
  proof (cases "dropWhile isspace s")
    case Nil
    then have "split s = []" by (simp only: split.simps [of s] list.case)
    moreover have "count_tokens True s = 0"
      using count_tokens_skip_space [of s] Nil by simp
    ultimately show ?thesis by simp
  next
    case (Cons c cs)
    then have c: "\<not> isspace c" by (simp add: dropWhile_eq_Cons_conv)
    have "length (split s) = Suc (length (split (dropWhile (\<lambda>x. \<not> isspace x) cs)))"
      using Cons by (simp only: split.simps [of s] list.case length_Cons)
    also have "\<dots> = Suc (count_tokens True (dropWhile (\<lambda>x. \<not> isspace x) cs))"
      using "1.IH" [OF Cons] by simp
    also have "\<dots> = Suc (count_tokens False cs)"
      by (simp add: count_tokens_skip_word [symmetric])
    also have "\<dots> = count_tokens True (c # cs)" using c by simp
    also have "\<dots> = count_tokens True s"
      using count_tokens_skip_space [of s] Cons by simp
    finally show ?thesis .
  qed
qed

lemma split_sample:
  "split (str ''  two  words and\<newline>a third '')
     = [str ''two'', str ''words'', str ''and'', str ''a'', str ''third'']"
  by (simp add: split.simps str_def isspace_def)

text \<open>
  C6. Every record the formatter builds has \<open>total_tokens = input_tokens + output_tokens\<close>,
  \<open>response_length\<close> the length of the response, and \<open>words_count\<close> the number of
  whitespace-delimited tokens of the response, whatever the arguments.
\<close>

theorem format_response_data_invariants:
  "input_tokens (format_response_data now pid resp latency i t cost mdl) = Some i
   \<and> output_tokens (format_response_data now pid resp latency i t cost mdl) = Some t
   \<and> total_tokens (format_response_data now pid resp latency i t cost mdl) = Some (i + t)
   \<and> response (format_response_data now pid resp latency i t cost mdl) = Some resp
   \<and> response_length (format_response_data now pid resp latency i t cost mdl)
       = Some (int (length resp))
   \<and> words_count (format_response_data now pid resp latency i t cost mdl)
       = Some (int (count_tokens True resp))"
  by (simp add: format_response_data_def split_count)

subsection \<open>The analysis of no successful comparison\<close>

text \<open>
  C3. When the list of comparisons is empty, or no comparison in it has
  \<open>both_successful\<close>, the aggregator returns an error object with a message
  in place of the statistics, and it does so by returning, not by raising.
\<close>

theorem analysis_error_indicator:
  "(comparisons = [] \<longrightarrow>
      generate_performance_analysis comparisons
        = Inr (AnalysisError (str ''No comparisons available'')))
   \<and> (comparisons \<noteq> [] \<and> (\<forall>c \<in> set comparisons. \<not> both_successful (comparison_metrics c)) \<longrightarrow>
      generate_performance_analysis comparisons
        = Inr (AnalysisError (str ''No successful comparisons available'')))"
  by (auto simp: generate_performance_analysis_def filter_empty_conv)

theorem analysis_error_indicator_witness:
  "generate_performance_analysis [] = Inr (AnalysisError (str ''No comparisons available''))
   \<and> generate_performance_analysis [sample_comparison (str ''p1'') True]
       = Inr (AnalysisError (str ''No successful comparisons available''))"
  using analysis_error_indicator [of "[]"]
    analysis_error_indicator [of "[sample_comparison (str ''p1'') True]"]
  by (simp add: sample_comparison_def)

subsection \<open>Loading a file that is not valid JSON\<close>

text \<open>
  C4, as stated: every loading operation propagates the parse error of a file whose
  content is present but is not valid JSON, and returns no empty or default value.
  \<open>load_results\<close> does not: for a results file that holds an opening brace alone it
  returns the empty list.
\<close>

theorem load_results_malformed_counterexample:
  "load_results sample_json_load [str ''local_outputs.json'' \<mapsto> str ''{'']
     (str ''local_outputs.json'') = Inr []"
  by (simp add: load_results_def open_read_def bind_err_def sample_json_load_def str_def)

text \<open>
  C4, amended: for a file whose content is present but is not valid JSON, \<open>load_prompts\<close>
  propagates the parse error to its caller, while \<open>load_results\<close> catches it and returns the
  empty list.
\<close>

theorem load_malformed:
  "fs file_path = Some text \<Longrightarrow> json_load text = Inl (JSONDecodeError e) \<Longrightarrow>
     load_prompts json_load fs file_path = Inl (JSONDecodeError e)
     \<and> load_results json_load fs file_path = Inr []"
  by (simp add: load_prompts_def load_results_def open_read_def bind_err_def)

theorem load_malformed_witness:
  "load_prompts sample_json_load [str ''coding.json'' \<mapsto> str ''{''] (str ''coding.json'')
     = Inl (JSONDecodeError (str ''Expecting property name enclosed in double quotes''))
   \<and> load_results sample_json_load [str ''coding.json'' \<mapsto> str ''{''] (str ''coding.json'')
     = Inr []"
proof -
  have a: "[str ''coding.json'' \<mapsto> str ''{''] (str ''coding.json'') = Some (str ''{'')"
    by simp
  have b: "sample_json_load (str ''{'')
             = Inl (JSONDecodeError (str ''Expecting property name enclosed in double quotes''))"
    by (simp add: sample_json_load_def str_def)
  from load_malformed [where fs = "[str ''coding.json'' \<mapsto> str ''{'']"
      and json_load = sample_json_load, OF a b]
  show ?thesis .
qed

subsection \<open>The category runner\<close>

lemma error_text_not_empty: "str ''ERROR: '' @ err \<noteq> []"
  by (simp add: str_def)

text \<open>
  The loop with any list of records collected so far: it returns that list with one more
  record for each remaining prompt.
\<close>

lemma run_loop_records:
  assumes "\<forall>p \<in> set ps. ident p \<noteq> None \<and> content p \<noteq> None"
  shows "\<exists>rs st'. run_loop client now cat ps acc (w, lg) = (Inr (acc @ rs), st')
           \<and> length rs = length ps
           \<and> map prompt_id rs = map ident ps
           \<and> list_all2 record_of_outcome (api_results client now ps w) rs"
  using assms
proof (induction ps arbitrary: acc w lg)
  case Nil
  then show ?case by simp
next
  case (Cons p ps)
  then obtain pid c where p: "ident p = Some pid" "content p = Some c" by auto
  obtain a w1 where s: "send_prompt client c w = (a, w1)" by (cases "send_prompt client c w")
  from Cons.prems have rest: "\<forall>p \<in> set ps. ident p \<noteq> None \<and> content p \<noteq> None" by simp
  show ?case
  proof (cases a)
    case (Success resp latency i t cost)
    obtain ts w2 where n: "now w1 = (ts, w2)" by (cases "now w1")
    let ?r = "(format_response_data ts pid resp latency i t cost (model_name client))
                \<lparr> category := Some cat \<rparr>"
    from Cons.IH [OF rest, of "acc @ [?r]" w2 lg]
    obtain rs st' where ih:
      "run_loop client now cat ps (acc @ [?r]) (w2, lg) = (Inr ((acc @ [?r]) @ rs), st')"
      "length rs = length ps" "map prompt_id rs = map ident ps"
      "list_all2 record_of_outcome (api_results client now ps w2) rs" by blast
    have "run_loop client now cat (p # ps) acc (w, lg) = (Inr (acc @ (?r # rs)), st')"
      using p s Success n ih(1) by (simp add: getitem_def)
    moreover have "record_of_outcome a ?r"
      using Success by (simp add: format_response_data_def)
    moreover have "prompt_id ?r = ident p" using p by (simp add: format_response_data_def)
    moreover have "api_results client now (p # ps) w = a # api_results client now ps w2"
      using p s Success n by simp
    ultimately show ?thesis using ih(2-4) by simp
  next
    case (Failure err latency)
    obtain ts w2 where n: "now w1 = (ts, w2)" by (cases "now w1")
    obtain ts' w3 where n': "now w2 = (ts', w3)" by (cases "now w2")
    let ?r = "(format_response_data ts' pid (str ''ERROR: '' @ err) latency 0 0 0
                 (model_name client)) \<lparr> category := Some cat, error := Some True \<rparr>"
    let ?lg = "log_error ts (str ''Failed to process prompt '' @ pid @ str '': '' @ err)
                 (Some pid) lg"
    from Cons.IH [OF rest, of "acc @ [?r]" w3 ?lg]
    obtain rs st' where ih:
      "run_loop client now cat ps (acc @ [?r]) (w3, ?lg) = (Inr ((acc @ [?r]) @ rs), st')"
      "length rs = length ps" "map prompt_id rs = map ident ps"
      "list_all2 record_of_outcome (api_results client now ps w3) rs" by blast
    have "run_loop client now cat (p # ps) acc (w, lg) = (Inr (acc @ (?r # rs)), st')"
      using p s Failure n n' ih(1) by (simp add: getitem_def)
    moreover have "record_of_outcome a ?r"
      using Failure error_text_not_empty [of err] by (simp add: format_response_data_def)
    moreover have "prompt_id ?r = ident p" using p by (simp add: format_response_data_def)
    moreover have "api_results client now (p # ps) w = a # api_results client now ps w3"
      using p s Failure n n' by simp
    ultimately show ?thesis using ih(2-4) by simp
  qed
qed

lemma sample_trace:
  "api_results sample_client sample_now [sample_prompt 1, sample_prompt 2, sample_prompt 3] 0
     = [Success (str ''four'') 2 10 1 0.0009, Failure (str ''timed out'') 60,
        Success (str ''four'') 2 10 1 0.0009]"
  by (simp add: sample_client_def sample_now_def sample_prompt_def)

text \<open>
  C7. For every list of prompts (each with its \<open>id\<close> and \<open>content\<close>), in any world and
  with any client, the runner returns exactly one record per prompt, in the order of the
  prompts and under their ids. The record of a failed request has \<open>error\<close> set and its
  response is \<open>ERROR: \<close> followed by the failure message, hence not empty; the requests
  behind a failed one are still made and recorded.
\<close>

theorem run_prompt_category_records:
  assumes "\<forall>p \<in> set prompts. ident p \<noteq> None \<and> content p \<noteq> None"
  shows "\<exists>rs st'. run_prompt_category client now prompts cat (w, lg) = (Inr rs, st')
           \<and> length rs = length prompts
           \<and> map prompt_id rs = map ident prompts
           \<and> list_all2 record_of_outcome (api_results client now prompts w) rs"
  using run_loop_records [OF assms, of client now cat "[]" w lg]
  by (simp add: run_prompt_category_def)

theorem run_prompt_category_records_witness:
  "list_all (\<lambda>p. ident p \<noteq> None \<and> content p \<noteq> None)
     [sample_prompt 1, sample_prompt 2, sample_prompt 3]
   \<and> (\<exists>rs st'. run_prompt_category sample_client sample_now
                  [sample_prompt 1, sample_prompt 2, sample_prompt 3] (str ''reasoning'') (0, [])
                  = (Inr rs, st')
          \<and> length rs = length [sample_prompt 1, sample_prompt 2, sample_prompt 3]
          \<and> map prompt_id rs = map ident [sample_prompt 1, sample_prompt 2, sample_prompt 3]
          \<and> list_all2 record_of_outcome
               [Success (str ''four'') 2 10 1 0.0009, Failure (str ''timed out'') 60,
                Success (str ''four'') 2 10 1 0.0009] rs)"
proof -
  have h: "\<forall>p \<in> set [sample_prompt 1, sample_prompt 2, sample_prompt 3].
             ident p \<noteq> None \<and> content p \<noteq> None"
    by (simp add: sample_prompt_def)
  note r = run_prompt_category_records
    [OF h, of sample_client sample_now "str ''reasoning''" 0 "[]", unfolded sample_trace]
  from h have "list_all (\<lambda>p. ident p \<noteq> None \<and> content p \<noteq> None)
     [sample_prompt 1, sample_prompt 2, sample_prompt 3]"
    by (simp only: list_all_iff)
  then show ?thesis by (rule conjI [OF _ r])
qed

subsection \<open>The join of the two result sets\<close>

lemma find_snoc:
  "List.find P (xs @ [x]) = (case List.find P xs of Some y \<Rightarrow> Some y | None \<Rightarrow> if P x then Some x else None)"
  by (induction xs) simp_all

lemma indexed_Nil: "indexed [] k = None"
  by (simp add: indexed_def)

lemma indexed_Cons:
  "indexed (r # rs) k =
     (case indexed rs k of Some y \<Rightarrow> Some y | None \<Rightarrow> if prompt_id r = Some k then Some r else None)"
  by (simp add: indexed_def find_snoc)

lemma indexed_Some: "indexed rs k = Some r \<Longrightarrow> r \<in> set rs \<and> prompt_id r = Some k"
  by (induction rs) (auto simp: indexed_Nil indexed_Cons split: option.splits if_splits)

lemma indexed_dom: "indexed rs k \<noteq> None \<longleftrightarrow> k \<in> prompt_ids rs"
  by (auto simp: indexed_def find_None_iff prompt_ids_def)

lemma prompt_ids_Cons:
  "prompt_ids (r # rs) = (case prompt_id r of None \<Rightarrow> {} | Some k \<Rightarrow> {k}) \<union> prompt_ids rs"
  by (auto simp: prompt_ids_def split: option.splits)

lemma prompt_ids_Nil: "prompt_ids [] = {}"
  by (simp add: prompt_ids_def)

lemma finite_prompt_ids: "finite (prompt_ids rs)"
  by (induction rs) (simp_all add: prompt_ids_Nil prompt_ids_Cons split: option.splits)

lemma card_prompt_ids: "card (prompt_ids rs) \<le> length rs"
proof (induction rs)
  case Nil
  then show ?case by (simp add: prompt_ids_def)
next
  case (Cons r rs)
  have "card (prompt_ids (r # rs)) \<le> Suc (card (prompt_ids rs))"
    by (cases "prompt_id r") (simp_all add: prompt_ids_Cons card_insert_if finite_prompt_ids)
  with Cons show ?case by simp
qed

lemma build_lookup_total:
  "\<forall>r \<in> set rs. prompt_id r \<noteq> None \<Longrightarrow> \<exists>d'. build_lookup rs d = Inr d'"
  by (induction rs arbitrary: d) (auto simp: bind_err_def getitem_def)

lemma build_lookup_map_of:
  "build_lookup rs d = Inr d' \<Longrightarrow>
     map_of d' k = (case indexed rs k of Some r \<Rightarrow> Some r | None \<Rightarrow> map_of d k)"
proof (induction rs arbitrary: d)
  case Nil
  then show ?case by (simp add: indexed_Nil)
next
  case (Cons r rs)
  then obtain j where j: "prompt_id r = Some j" and b: "build_lookup rs (AList.update j r d) = Inr d'"
    by (auto simp: bind_err_def getitem_def split: option.splits)
  from Cons.IH [OF b] show ?case
    by (auto simp: indexed_Cons j update_conv' split: option.splits)
qed

lemma build_lookup_keys:
  "build_lookup rs d = Inr d' \<Longrightarrow> set (map fst d') = set (map fst d) \<union> prompt_ids rs"
proof (induction rs arbitrary: d)
  case Nil
  then show ?case by (simp add: prompt_ids_def)
next
  case (Cons r rs)
  then obtain j where j: "prompt_id r = Some j" and b: "build_lookup rs (AList.update j r d) = Inr d'"
    by (auto simp: bind_err_def getitem_def split: option.splits)
  from Cons.IH [OF b] show ?case
    using dom_update [of j r d] by (auto simp: prompt_ids_Cons j)
qed

lemma build_all_joined:
  "build_all pids ol ll acc = Inr out \<Longrightarrow>
     \<exists>cs. out = acc @ cs
        \<and> list_all2 (\<lambda>pid c. \<exists>h l. map_of ol pid = Some h \<and> map_of ll pid = Some l
                               \<and> build_comparison pid h l = Inr c) pids cs"
proof (induction pids arbitrary: acc)
  case Nil
  then show ?case by simp
next
  case (Cons pid pids)
  then obtain h l c where
    h: "map_of ol pid = Some h" and l: "map_of ll pid = Some l"
    and c: "build_comparison pid h l = Inr c"
    and r: "build_all pids ol ll (acc @ [c]) = Inr out"
    by (auto simp: bind_err_def split: option.splits sum.splits)
  from Cons.IH [OF r] obtain cs where "out = (acc @ [c]) @ cs"
    "list_all2 (\<lambda>pid c. \<exists>h l. map_of ol pid = Some h \<and> map_of ll pid = Some l
                               \<and> build_comparison pid h l = Inr c) pids cs" by blast
  then show ?case using h l c by (intro exI [of _ "c # cs"]) simp
qed

lemma create_joined:
  assumes "create_side_by_side_comparison a b = Inr cs"
  shows "list_all2 (joined a b) (sorted_list_of_set (prompt_ids a \<inter> prompt_ids b)) cs"
proof -
  from assms obtain ol ll where ol: "build_lookup a [] = Inr ol" and ll: "build_lookup b [] = Inr ll"
    and r: "(if fst ` set ol \<inter> fst ` set ll = {} then Inr []
             else build_all (sorted_list_of_set (fst ` set ol \<inter> fst ` set ll)) ol ll []) = Inr cs"
    by (auto simp: create_side_by_side_comparison_def bind_err_def Let_def split: sum.splits)
  have keys: "fst ` set ol \<inter> fst ` set ll = prompt_ids a \<inter> prompt_ids b"
    using build_lookup_keys [OF ol] build_lookup_keys [OF ll] by simp
  have mo: "map_of ol k = indexed a k" "map_of ll k = indexed b k" for k
    using build_lookup_map_of [OF ol, of k] build_lookup_map_of [OF ll, of k]
    by (auto split: option.splits)
  show ?thesis
  proof (cases "prompt_ids a \<inter> prompt_ids b = {}")
    case True
    with r keys show ?thesis by simp
  next
    case False
    with r keys have "build_all (sorted_list_of_set (prompt_ids a \<inter> prompt_ids b)) ol ll [] = Inr cs"
      by simp
    from build_all_joined [OF this] show ?thesis
      by (simp add: joined_def [abs_def] mo)
  qed
qed

lemma build_comparison_total:
  "well_formed h \<Longrightarrow> well_formed l \<Longrightarrow> \<exists>c. build_comparison pid h l = Inr c"
  by (auto simp: well_formed_def build_comparison_def bind_err_def getitem_def truediv_def max_def)

lemma build_all_total:
  "\<forall>pid \<in> set pids. \<exists>h l. map_of ol pid = Some h \<and> map_of ll pid = Some l
                          \<and> well_formed h \<and> well_formed l \<Longrightarrow>
     \<exists>out. build_all pids ol ll acc = Inr out"
proof (induction pids arbitrary: acc)
  case Nil
  then show ?case by simp
next
  case (Cons pid pids)
  then obtain h l where h: "map_of ol pid = Some h" "map_of ll pid = Some l" "well_formed h" "well_formed l"
    by auto
  from build_comparison_total [OF h(3,4), of pid] obtain c where c: "build_comparison pid h l = Inr c" ..
  from Cons.IH [of "acc @ [c]"] Cons.prems obtain out where "build_all pids ol ll (acc @ [c]) = Inr out"
    by auto
  then show ?case using h c by (simp add: bind_err_def)
qed

lemma create_total:
  assumes "\<forall>r \<in> set a \<union> set b. well_formed r"
  shows "\<exists>cs. create_side_by_side_comparison a b = Inr cs"
proof -
  from assms have "\<forall>r \<in> set a. prompt_id r \<noteq> None" "\<forall>r \<in> set b. prompt_id r \<noteq> None"
    by (auto simp: well_formed_def)
  then obtain ol ll where ol: "build_lookup a [] = Inr ol" and ll: "build_lookup b [] = Inr ll"
    using build_lookup_total [of a "[]"] build_lookup_total [of b "[]"] by blast
  have mo: "map_of ol k = indexed a k" "map_of ll k = indexed b k" for k
    using build_lookup_map_of [OF ol, of k] build_lookup_map_of [OF ll, of k]
    by (auto split: option.splits)
  have keys: "fst ` set ol \<inter> fst ` set ll = prompt_ids a \<inter> prompt_ids b"
    using build_lookup_keys [OF ol] build_lookup_keys [OF ll] by simp
  have "\<forall>pid \<in> set (sorted_list_of_set (prompt_ids a \<inter> prompt_ids b)).
          \<exists>h l. map_of ol pid = Some h \<and> map_of ll pid = Some l \<and> well_formed h \<and> well_formed l"
  proof
    fix pid assume "pid \<in> set (sorted_list_of_set (prompt_ids a \<inter> prompt_ids b))"
    then have "pid \<in> prompt_ids a" "pid \<in> prompt_ids b" by (simp_all add: finite_prompt_ids)
    then obtain h l where hl: "indexed a pid = Some h" "indexed b pid = Some l"
      using indexed_dom [of a pid] indexed_dom [of b pid] by auto
    with indexed_Some [OF hl(1)] indexed_Some [OF hl(2)] assms
    show "\<exists>h l. map_of ol pid = Some h \<and> map_of ll pid = Some l \<and> well_formed h \<and> well_formed l"
      by (auto simp: mo)
  qed
  from build_all_total [OF this, of "[]"] show ?thesis
    using ol ll keys by (auto simp: create_side_by_side_comparison_def bind_err_def Let_def)
qed

lemma build_comparison_id: "build_comparison pid h l = Inr c \<Longrightarrow> cmp_prompt_id c = pid"
  by (auto simp: build_comparison_def bind_err_def split: sum.splits)

lemma create_ids:
  assumes "create_side_by_side_comparison a b = Inr cs"
  shows "map cmp_prompt_id cs = sorted_list_of_set (prompt_ids a \<inter> prompt_ids b)"
proof -
  have "list_all2 (\<lambda>pid c. cmp_prompt_id c = pid) (sorted_list_of_set (prompt_ids a \<inter> prompt_ids b)) cs"
    using create_joined [OF assms]
    by (rule list_all2_mono) (auto simp: joined_def dest: build_comparison_id)
  then show ?thesis
    by (induction rule: list_all2_induct) simp_all
qed


lemma sample_create:
  "create_side_by_side_comparison
     [sample_hosted (numbered 2) False, sample_hosted (numbered 1) True,
      sample_hosted (numbered 3) False]
     [sample_local (numbered 1), sample_local (numbered 2), sample_local (numbered 9)]
   = Inr [sample_comparison (numbered 1) True, sample_comparison (numbered 2) False]"
  by code_simp

text \<open>
  C1. Whenever the comparator returns, its output holds exactly one comparison for each
  prompt id that both result sets carry: the prompt ids of the output are the sorted list
  of the intersection, so they are distinct, their number is the size of the intersection
  and at most the length of either input, and they stand in strictly ascending
  lexicographic order. The comparator does return for all result sets whose records have
  the fields it reads by subscript (\<open>prompt_id\<close>, \<open>model\<close>, \<open>response\<close>,
  \<open>latency_seconds\<close>, \<open>response_length\<close>), which the formatter always writes.
\<close>

theorem comparison_per_shared_prompt:
  "((\<forall>r \<in> set a \<union> set b. well_formed r) \<longrightarrow> (\<exists>cs. create_side_by_side_comparison a b = Inr cs))
   \<and> (\<forall>cs. create_side_by_side_comparison a b = Inr cs \<longrightarrow>
          map cmp_prompt_id cs = sorted_list_of_set (prompt_ids a \<inter> prompt_ids b)
          \<and> distinct (map cmp_prompt_id cs)
          \<and> set (map cmp_prompt_id cs) = prompt_ids a \<inter> prompt_ids b
          \<and> length cs = card (prompt_ids a \<inter> prompt_ids b)
          \<and> length cs \<le> min (length a) (length b)
          \<and> sorted_wrt (\<lambda>x y. (x, y) \<in> lexord {(u, v). u < v}) (map cmp_prompt_id cs))"
proof (intro conjI impI allI)
  assume "\<forall>r \<in> set a \<union> set b. well_formed r"
  then show "\<exists>cs. create_side_by_side_comparison a b = Inr cs" by (rule create_total)
next
  fix cs assume r: "create_side_by_side_comparison a b = Inr cs"
  let ?I = "prompt_ids a \<inter> prompt_ids b"
  have fin: "finite ?I" by (simp add: finite_prompt_ids)
  show ids: "map cmp_prompt_id cs = sorted_list_of_set ?I" by (rule create_ids [OF r])
  show "distinct (map cmp_prompt_id cs)" by (simp add: ids)
  show "set (map cmp_prompt_id cs) = ?I" using fin by (simp add: ids)
  have "length (map cmp_prompt_id cs) = card ?I" by (simp add: ids)
  then show len: "length cs = card ?I" by simp
  have "card ?I \<le> card (prompt_ids a)" "card ?I \<le> card (prompt_ids b)"
    by (simp_all add: card_mono finite_prompt_ids)
  then show "length cs \<le> min (length a) (length b)"
    using card_prompt_ids [of a] card_prompt_ids [of b] len by simp
  have "sorted_wrt (<) (map cmp_prompt_id cs)" by (simp add: ids strict_sorted_list_of_set)
  then show "sorted_wrt (\<lambda>x y. (x, y) \<in> lexord {(u, v). u < v}) (map cmp_prompt_id cs)"
    by (simp add: list_less_def [abs_def])
qed

theorem comparison_per_shared_prompt_witness:
  "list_all well_formed
     ([sample_hosted (numbered 2) False, sample_hosted (numbered 1) True,
       sample_hosted (numbered 3) False]
      @ [sample_local (numbered 1), sample_local (numbered 2), sample_local (numbered 9)])
   \<and> create_side_by_side_comparison
        [sample_hosted (numbered 2) False, sample_hosted (numbered 1) True,
         sample_hosted (numbered 3) False]
        [sample_local (numbered 1), sample_local (numbered 2), sample_local (numbered 9)]
      = Inr [sample_comparison (numbered 1) True, sample_comparison (numbered 2) False]
   \<and> [numbered 1, numbered 2]
      = sorted_list_of_set
          (prompt_ids [sample_hosted (numbered 2) False, sample_hosted (numbered 1) True,
                       sample_hosted (numbered 3) False]
           \<inter> prompt_ids [sample_local (numbered 1), sample_local (numbered 2),
                         sample_local (numbered 9)])"
proof -
  have wf: "\<forall>r \<in> set [sample_hosted (numbered 2) False, sample_hosted (numbered 1) True,
               sample_hosted (numbered 3) False]
          \<union> set [sample_local (numbered 1), sample_local (numbered 2), sample_local (numbered 9)].
      well_formed r"
    by (simp add: well_formed_def sample_hosted_def sample_local_def)
  from comparison_per_shared_prompt
    [of "[sample_hosted (numbered 2) False, sample_hosted (numbered 1) True,
          sample_hosted (numbered 3) False]"
        "[sample_local (numbered 1), sample_local (numbered 2), sample_local (numbered 9)]"]
    sample_create wf
  show ?thesis by (simp add: sample_comparison_def list_all_iff)
qed

lemma list_all2_member:
  "list_all2 P xs ys \<Longrightarrow> y \<in> set ys \<Longrightarrow> \<exists>x \<in> set xs. P x y"
  by (induction rule: list_all2_induct) auto

lemma create_member:
  assumes "create_side_by_side_comparison a b = Inr cs" and "c \<in> set cs"
  shows "\<exists>h l. indexed a (cmp_prompt_id c) = Some h \<and> indexed b (cmp_prompt_id c) = Some l
           \<and> build_comparison (cmp_prompt_id c) h l = Inr c"
proof -
  from list_all2_member [OF create_joined [OF assms(1)] assms(2)]
  obtain pid h l where "indexed a pid = Some h" "indexed b pid = Some l"
    "build_comparison pid h l = Inr c" by (auto simp: joined_def)
  then show ?thesis using build_comparison_id [of pid h l c] by auto
qed

lemma bind_err_Inr: "bind_err m f = Inr c \<longleftrightarrow> (\<exists>v. m = Inr v \<and> f v = Inr c)"
  by (cases m) (simp_all add: bind_err_def)

lemma getitem_Inr: "getitem k x = Inr v \<longleftrightarrow> x = Some v"
  by (cases x) (simp_all add: getitem_def)

lemma truediv_Inr: "truediv x y = Inr v \<longleftrightarrow> y \<noteq> 0 \<and> v = x / y"
  by (auto simp: truediv_def)

lemma build_comparison_metrics:
  assumes "build_comparison pid h l = Inr c"
  shows "\<exists>h_latency l_latency h_length l_length.
           latency_seconds h = Some h_latency \<and> latency_seconds l = Some l_latency
         \<and> response_length h = Some h_length \<and> response_length l = Some l_length
         \<and> latency_ratio (comparison_metrics c) = l_latency / max h_latency 0.001
         \<and> length_ratio (comparison_metrics c) = real_of_int l_length / real_of_int (max h_length 1)
         \<and> cost_savings (comparison_metrics c) = get_default (cost_usd h) 0
         \<and> both_successful (comparison_metrics c)
             = (\<not> (get_default (error h) False \<or> get_default (error l) False))"
  using assms unfolding build_comparison_def bind_err_Inr getitem_Inr truediv_Inr
  by auto

lemma build_comparison_category:
  "build_comparison pid h l = Inr c \<Longrightarrow>
     cmp_category c = get_default (category h) (str ''unknown'')"
  unfolding build_comparison_def bind_err_Inr getitem_Inr truediv_Inr
  by auto

text \<open>
  C2. Every comparison in the comparator's output is built from the hosted and the local
  record indexed under its prompt id, and its metrics are the reference ones:
  \<open>latency_ratio\<close> is the local latency over the larger of the hosted latency and 0.001,
  \<open>length_ratio\<close> is the local response length over the larger of the hosted response
  length and 1, \<open>cost_savings\<close> is the hosted \<open>cost_usd\<close> (0 when the field is absent),
  and \<open>both_successful\<close> is the negation of "hosted error or local error", an absent
  \<open>error\<close> field counting as false.
\<close>

theorem comparison_metrics_reference:
  assumes "create_side_by_side_comparison a b = Inr cs" and "c \<in> set cs"
  shows "\<exists>h l h_latency l_latency h_length l_length.
           indexed a (cmp_prompt_id c) = Some h \<and> indexed b (cmp_prompt_id c) = Some l
         \<and> latency_seconds h = Some h_latency \<and> latency_seconds l = Some l_latency
         \<and> response_length h = Some h_length \<and> response_length l = Some l_length
         \<and> latency_ratio (comparison_metrics c) = l_latency / max h_latency 0.001
         \<and> length_ratio (comparison_metrics c) = real_of_int l_length / real_of_int (max h_length 1)
         \<and> cost_savings (comparison_metrics c) = get_default (cost_usd h) 0
         \<and> both_successful (comparison_metrics c)
             = (\<not> (get_default (error h) False \<or> get_default (error l) False))"
proof -
  from create_member [OF assms] obtain h l where
    hl: "indexed a (cmp_prompt_id c) = Some h" "indexed b (cmp_prompt_id c) = Some l"
    and c: "build_comparison (cmp_prompt_id c) h l = Inr c" by blast
  from build_comparison_metrics [OF c] hl show ?thesis by blast
qed

theorem comparison_metrics_reference_witness:
  "create_side_by_side_comparison
     [sample_hosted (numbered 2) False, sample_hosted (numbered 1) True,
      sample_hosted (numbered 3) False]
     [sample_local (numbered 1), sample_local (numbered 2), sample_local (numbered 9)]
   = Inr [sample_comparison (numbered 1) True, sample_comparison (numbered 2) False]
   \<and> sample_comparison (numbered 2) False
       \<in> set [sample_comparison (numbered 1) True, sample_comparison (numbered 2) False]
   \<and> latency_ratio (comparison_metrics (sample_comparison (numbered 2) False)) = 4 / max 2 0.001
   \<and> length_ratio (comparison_metrics (sample_comparison (numbered 2) False))
       = real_of_int 2 / real_of_int (max 4 1)
   \<and> cost_savings (comparison_metrics (sample_comparison (numbered 2) False)) = 0.05
   \<and> both_successful (comparison_metrics (sample_comparison (numbered 2) False))"
proof -
  have m: "sample_comparison (numbered 2) False
       \<in> set [sample_comparison (numbered 1) True, sample_comparison (numbered 2) False]" by simp
  from comparison_metrics_reference [OF sample_create m] m sample_create
  show ?thesis by (simp add: sample_comparison_def)
qed

subsection \<open>The category of a comparison\<close>

lemma update_apsnd:
  "AList.update k (u v) (map (apsnd u) d) = map (apsnd u) (AList.update k v d)"
  by (induction d) auto

lemma build_lookup_relabel:
  assumes "\<And>r. prompt_id (u r) = prompt_id r"
  shows "build_lookup (map u rs) (map (apsnd u) d) = map_sum id (map (apsnd u)) (build_lookup rs d)"
proof (induction rs arbitrary: d)
  case Nil
  then show ?case by simp
next
  case (Cons r rs)
  show ?case
  proof (cases "prompt_id r")
    case None
    then show ?thesis by (simp add: assms bind_err_def getitem_def)
  next
    case (Some k)
    then show ?thesis
      using Cons [of "AList.update k r d"] by (simp add: assms bind_err_def getitem_def update_apsnd)
  qed
qed

lemma map_of_apsnd: "map_of (map (apsnd u) d) k = map_option u (map_of d k)"
  by (induction d) auto

lemma build_comparison_local_category:
  "build_comparison pid h (l \<lparr> category := g \<rparr>) = build_comparison pid h l"
  by (simp add: build_comparison_def)

lemma build_all_local_category:
  "build_all pids ol (map (apsnd (\<lambda>r. r \<lparr> category := g r \<rparr>)) ll) acc = build_all pids ol ll acc"
proof (induction pids arbitrary: acc)
  case Nil
  then show ?case by simp
next
  case (Cons pid pids)
  then show ?case
    by (cases "map_of ol pid"; cases "map_of ll pid")
       (simp_all add: map_of_apsnd build_comparison_local_category)
qed

lemma create_local_category:
  "create_side_by_side_comparison a (map (\<lambda>r. r \<lparr> category := g r \<rparr>) b)
     = create_side_by_side_comparison a b"
proof -
  let ?u = "\<lambda>r. r \<lparr> category := g r \<rparr>"
  have "build_lookup (map ?u b) [] = map_sum id (map (apsnd ?u)) (build_lookup b [])"
    using build_lookup_relabel [of ?u b "[]"] by simp
  then show ?thesis
    by (cases "build_lookup a []"; cases "build_lookup b []")
       (simp_all add: create_side_by_side_comparison_def bind_err_def Let_def
          build_all_local_category image_image)
qed

subsection \<open>The analysis\<close>

lemma map_of_key: "k \<in> fst ` set al \<Longrightarrow> \<exists>v. map_of al k = Some v"
  by (induction al) auto

lemma accumulate_update:
  "accumulate c ca =
     AList.update (cmp_category c)
       (let e = (case map_of ca (cmp_category c) of
                   None \<Rightarrow> \<lparr> cat_count = 0, cat_avg_latency_ratio = 0, cat_avg_length_ratio = 0,
                            cat_total_cost_savings = 0 \<rparr>
                 | Some e \<Rightarrow> e)
        in \<lparr> cat_count = cat_count e + 1,
             cat_avg_latency_ratio = cat_avg_latency_ratio e + latency_ratio (comparison_metrics c),
             cat_avg_length_ratio = cat_avg_length_ratio e + length_ratio (comparison_metrics c),
             cat_total_cost_savings = cat_total_cost_savings e + cost_savings (comparison_metrics c) \<rparr>)
       ca"
proof (cases "cmp_category c \<in> fst ` set ca")
  case True
  with map_of_key [OF True] show ?thesis by (auto simp: accumulate_def Let_def)
next
  case False
  then have "map_of ca (cmp_category c) = None" by (simp add: map_of_eq_None_iff)
  with False show ?thesis by (simp add: accumulate_def Let_def update_conv')
qed

lemma accumulate_keys: "fst ` set (accumulate c ca) = insert (cmp_category c) (fst ` set ca)"
  by (simp add: accumulate_update dom_update)

lemma accumulate_distinct: "distinct (map fst ca) \<Longrightarrow> distinct (map fst (accumulate c ca))"
  by (simp add: accumulate_update distinct_update)

lemma accumulate_count:
  assumes "\<forall>k e. map_of ca k = Some e \<longrightarrow> 1 \<le> cat_count e"
  shows "\<forall>k e. map_of (accumulate c ca) k = Some e \<longrightarrow> 1 \<le> cat_count e"
proof (intro allI impI)
  fix k e assume m: "map_of (accumulate c ca) k = Some e"
  show "1 \<le> cat_count e"
  proof (cases "k = cmp_category c")
    case True
    show ?thesis
    proof (cases "map_of ca (cmp_category c)")
      case None
      with m True show ?thesis by (auto simp: accumulate_update update_conv' Let_def)
    next
      case (Some e0)
      with assms have "1 \<le> cat_count e0" by blast
      with m True Some show ?thesis by (auto simp: accumulate_update update_conv' Let_def)
    qed
  next
    case False
    with m have "map_of ca k = Some e" by (simp add: accumulate_update update_conv')
    with assms show ?thesis by blast
  qed
qed

lemma fold_accumulate:
  assumes "distinct (map fst ca)" and "\<forall>k e. map_of ca k = Some e \<longrightarrow> 1 \<le> cat_count e"
  shows "fst ` set (fold accumulate cs ca) = fst ` set ca \<union> cmp_category ` set cs
         \<and> distinct (map fst (fold accumulate cs ca))
         \<and> (\<forall>k e. map_of (fold accumulate cs ca) k = Some e \<longrightarrow> 1 \<le> cat_count e)"
  using assms
proof (induction cs arbitrary: ca)
  case Nil
  then show ?case by simp
next
  case (Cons c cs)
  from Cons.IH [OF accumulate_distinct [OF Cons.prems(1)] accumulate_count [OF Cons.prems(2)], of c]
  show ?case by (simp add: accumulate_keys)
qed

lemma average_categories_total:
  "\<forall>(k, e) \<in> set ca. cat_count e \<noteq> 0 \<Longrightarrow> \<exists>ca'. average_categories ca = Inr ca'"
  by (induction ca rule: average_categories.induct)
     (auto simp: bind_err_def truediv_def)

lemma average_categories_shape:
  "average_categories ca = Inr ca' \<Longrightarrow>
     map fst ca' = map fst ca \<and> map (\<lambda>p. cat_count (snd p)) ca' = map (\<lambda>p. cat_count (snd p)) ca"
proof (induction ca arbitrary: ca' rule: average_categories.induct)
  case 1
  then show ?case by simp
next
  case (2 cat e rest)
  from "2.prems" obtain rest' lat len where
    r: "average_categories rest = Inr rest'"
    and c: "ca' = (cat, e \<lparr> cat_avg_latency_ratio := lat, cat_avg_length_ratio := len \<rparr>) # rest'"
    by (auto simp: bind_err_Inr)
  from "2.IH" r show ?case unfolding c
    by (auto simp: bind_err_Inr truediv_Inr)
qed

lemma py_round_bounds:
  assumes "of_int lo \<le> x * 10 ^ n" and "x * 10 ^ n \<le> of_int hi"
  shows "of_int lo / 10 ^ n \<le> py_round x n \<and> py_round x n \<le> of_int hi / 10 ^ n"
proof -
  let ?y = "x * 10 ^ n"
  have lo: "lo \<le> \<lfloor>?y\<rfloor>" using assms(1) by (simp add: le_floor_iff)
  have hi: "\<lfloor>?y\<rfloor> \<le> hi" using assms(2) by (simp add: floor_le_iff)
  have up: "\<lfloor>?y\<rfloor> + 1 \<le> hi" if "?y - of_int \<lfloor>?y\<rfloor> > 0"
  proof -
    from that have "of_int \<lfloor>?y\<rfloor> < ?y" by simp
    with assms(2) have "(of_int \<lfloor>?y\<rfloor> :: real) < of_int hi" by linarith
    then show ?thesis by simp
  qed
  have r: "py_round x n = of_int \<lfloor>?y\<rfloor> / 10 ^ n
           \<or> (py_round x n = of_int (\<lfloor>?y\<rfloor> + 1) / 10 ^ n \<and> ?y - of_int \<lfloor>?y\<rfloor> > 0)"
    by (auto simp: py_round_def Let_def)
  have pos: "(0::real) < 10 ^ n" by simp
  from r show ?thesis
  proof
    assume "py_round x n = of_int \<lfloor>?y\<rfloor> / 10 ^ n"
    then show ?thesis using lo hi pos by (simp add: divide_le_cancel)
  next
    assume a: "py_round x n = of_int (\<lfloor>?y\<rfloor> + 1) / 10 ^ n \<and> ?y - of_int \<lfloor>?y\<rfloor> > 0"
    then have "\<lfloor>?y\<rfloor> + 1 \<le> hi" using up by blast
    moreover have "lo \<le> \<lfloor>?y\<rfloor> + 1" using lo by simp
    ultimately have "(of_int lo :: real) \<le> of_int (\<lfloor>?y\<rfloor> + 1)" "(of_int (\<lfloor>?y\<rfloor> + 1) :: real) \<le> of_int hi"
      by (simp_all only: of_int_le_iff)
    then show ?thesis using a pos by (simp add: divide_le_cancel)
  qed
qed

lemma py_round_nearest:
  "(\<exists>k::int. py_round x n = of_int k / 10 ^ n) \<and> \<bar>py_round x n - x\<bar> \<le> 1 / (2 * 10 ^ n)"
proof -
  let ?y = "x * 10 ^ n"
  let ?f = "\<lfloor>?y\<rfloor>"
  let ?d = "?y - of_int ?f"
  define k where "k = (if ?d < 1 / 2 then ?f else if 1 / 2 < ?d then ?f + 1
                       else if even ?f then ?f else ?f + 1)"
  have r: "py_round x n = of_int k / 10 ^ n"
    by (simp add: py_round_def Let_def k_def)
  have d: "0 \<le> ?d" "?d < 1" by linarith+
  have near: "\<bar>of_int k - ?y\<bar> \<le> 1 / 2"
    using d by (auto simp: k_def)
  have pos: "(0::real) < 10 ^ n" by simp
  have "py_round x n - x = (of_int k - ?y) / 10 ^ n"
    using pos by (simp add: r field_simps)
  then have "\<bar>py_round x n - x\<bar> = \<bar>of_int k - ?y\<bar> / 10 ^ n"
    using pos by (simp add: abs_divide)
  also have "\<dots> \<le> (1 / 2) / 10 ^ n"
    by (rule divide_right_mono [OF near]) simp
  finally have "\<bar>py_round x n - x\<bar> \<le> 1 / (2 * 10 ^ n)" by simp
  with r show ?thesis by blast
qed

lemma analysis_returned:
  assumes "generate_performance_analysis cs = Inr (Analysis ov ps cb)"
  shows "cs \<noteq> [] \<and> successful_of cs \<noteq> []
       \<and> total_comparisons ov = length cs
       \<and> successful_comparisons ov = length (successful_of cs)
       \<and> success_rate ov = py_round (real (length (successful_of cs)) / real (length cs) * 100) 1
       \<and> average_categories (fold accumulate (successful_of cs) []) = Inr cb"
  using assms unfolding generate_performance_analysis_def successful_of_def Let_def
  by (auto simp: bind_err_Inr truediv_Inr split: if_splits)

lemma analysis_total: "\<exists>r. generate_performance_analysis cs = Inr r"
proof (cases "cs = [] \<or> successful_of cs = []")
  case True
  then show ?thesis by (auto simp: generate_performance_analysis_def successful_of_def)
next
  case False
  have "\<forall>k e. map_of (fold accumulate (successful_of cs) []) k = Some e \<longrightarrow> 1 \<le> cat_count e"
    "distinct (map fst (fold accumulate (successful_of cs) []))"
    using fold_accumulate [of "[]" "successful_of cs"] by simp_all
  then have "\<forall>(k, e) \<in> set (fold accumulate (successful_of cs) []). cat_count e \<noteq> 0"
    by fastforce
  from average_categories_total [OF this] obtain cb
    where "average_categories (fold accumulate (successful_of cs) []) = Inr cb" ..
  with False show ?thesis
    unfolding generate_performance_analysis_def successful_of_def Let_def
    by (simp add: bind_err_def truediv_def)
qed

lemma sample_comparison_built:
  "build_comparison pid (sample_hosted pid failed) (sample_local pid)
     = Inr (sample_comparison pid failed)"
  by (simp add: build_comparison_def sample_hosted_def sample_local_def sample_comparison_def
        bind_err_def getitem_def truediv_def get_default_def)

lemma analysis_value:
  assumes "successful_of cs \<noteq> []"
  shows "\<exists>cb. average_categories (fold accumulate (successful_of cs) []) = Inr cb
           \<and> generate_performance_analysis cs =
               Inr (Analysis
                 \<lparr> total_comparisons = length cs,
                   successful_comparisons = length (successful_of cs),
                   success_rate = py_round (real (length (successful_of cs)) / real (length cs) * 100) 1,
                   avg_latency_ratio =
                     py_round (sum_list (map (\<lambda>c. latency_ratio (comparison_metrics c)) (successful_of cs))
                                / real (length (successful_of cs))) 2,
                   avg_response_length_ratio =
                     py_round (sum_list (map (\<lambda>c. length_ratio (comparison_metrics c)) (successful_of cs))
                                / real (length (successful_of cs))) 2,
                   total_cost_savings =
                     py_round (sum_list (map (\<lambda>c. side_cost_usd (openai c)) (successful_of cs))) 4 \<rparr>
                 \<lparr> local_vs_openai_speed =
                     (if sum_list (map (\<lambda>c. latency_ratio (comparison_metrics c)) (successful_of cs))
                          / real (length (successful_of cs)) < 1 then str ''Faster'' else str ''Slower'',
                      \<bar>1 - sum_list (map (\<lambda>c. latency_ratio (comparison_metrics c)) (successful_of cs))
                            / real (length (successful_of cs))\<bar>),
                   local_vs_openai_length =
                     (if sum_list (map (\<lambda>c. length_ratio (comparison_metrics c)) (successful_of cs))
                          / real (length (successful_of cs)) < 1 then str ''Shorter'' else str ''Longer'',
                      \<bar>1 - sum_list (map (\<lambda>c. length_ratio (comparison_metrics c)) (successful_of cs))
                            / real (length (successful_of cs))\<bar>),
                   cost_efficiency = sum_list (map (\<lambda>c. side_cost_usd (openai c)) (successful_of cs)) \<rparr>
                 cb)"
proof -
  from assms have ne: "cs \<noteq> []" by (auto simp: successful_of_def)
  have "\<forall>k e. map_of (fold accumulate (successful_of cs) []) k = Some e \<longrightarrow> 1 \<le> cat_count e"
    "distinct (map fst (fold accumulate (successful_of cs) []))"
    using fold_accumulate [of "[]" "successful_of cs"] by simp_all
  then have "\<forall>(k, e) \<in> set (fold accumulate (successful_of cs) []). cat_count e \<noteq> 0"
    by fastforce
  from average_categories_total [OF this] obtain cb
    where cb: "average_categories (fold accumulate (successful_of cs) []) = Inr cb" ..
  have "generate_performance_analysis cs = Inr (Analysis
                 \<lparr> total_comparisons = length cs,
                   successful_comparisons = length (successful_of cs),
                   success_rate = py_round (real (length (successful_of cs)) / real (length cs) * 100) 1,
                   avg_latency_ratio =
                     py_round (sum_list (map (\<lambda>c. latency_ratio (comparison_metrics c)) (successful_of cs))
                                / real (length (successful_of cs))) 2,
                   avg_response_length_ratio =
                     py_round (sum_list (map (\<lambda>c. length_ratio (comparison_metrics c)) (successful_of cs))
                                / real (length (successful_of cs))) 2,
                   total_cost_savings =
                     py_round (sum_list (map (\<lambda>c. side_cost_usd (openai c)) (successful_of cs))) 4 \<rparr>
                 \<lparr> local_vs_openai_speed =
                     (if sum_list (map (\<lambda>c. latency_ratio (comparison_metrics c)) (successful_of cs))
                          / real (length (successful_of cs)) < 1 then str ''Faster'' else str ''Slower'',
                      \<bar>1 - sum_list (map (\<lambda>c. latency_ratio (comparison_metrics c)) (successful_of cs))
                            / real (length (successful_of cs))\<bar>),
                   local_vs_openai_length =
                     (if sum_list (map (\<lambda>c. length_ratio (comparison_metrics c)) (successful_of cs))
                          / real (length (successful_of cs)) < 1 then str ''Shorter'' else str ''Longer'',
                      \<bar>1 - sum_list (map (\<lambda>c. length_ratio (comparison_metrics c)) (successful_of cs))
                            / real (length (successful_of cs))\<bar>),
                   cost_efficiency = sum_list (map (\<lambda>c. side_cost_usd (openai c)) (successful_of cs)) \<rparr>
                 cb)"
    using ne assms cb
    unfolding generate_performance_analysis_def successful_of_def [symmetric] Let_def
    by (simp add: bind_err_def truediv_def)
  with cb show ?thesis by blast
qed

lemma successful_sample_run:
  "successful_of (sample_run n) = [sample_comparison (numbered n) False]"
  by (simp add: successful_of_def sample_run_def sample_comparison_def filter_map o_def)

lemma successful_sample_run_front:
  "successful_of (sample_run_front n) = [sample_comparison (numbered 0) False]"
  by (simp add: successful_of_def sample_run_front_def sample_comparison_def filter_map o_def)

text \<open>
  C8, as stated: the reported \<open>success_rate\<close> equals 0 only when no comparison is
  successful. A run of 2001 comparisons of which the last one alone is successful is
  analysed without error, and its reported \<open>success_rate\<close> is 0: the rate of about 0.05
  percent is rounded to one decimal.
\<close>

theorem success_rate_zero_counterexample:
  "generate_performance_analysis (sample_run 2000) =
     Inr (Analysis
       \<lparr> total_comparisons = 2001, successful_comparisons = 1, success_rate = 0,
         avg_latency_ratio = 2, avg_response_length_ratio = 1 / 2, total_cost_savings = 0.05 \<rparr>
       \<lparr> local_vs_openai_speed = (str ''Slower'', 1),
         local_vs_openai_length = (str ''Shorter'', 1 / 2),
         cost_efficiency = 0.05 \<rparr>
       [(str ''reasoning'',
         \<lparr> cat_count = 1, cat_avg_latency_ratio = 2, cat_avg_length_ratio = 1 / 2,
           cat_total_cost_savings = 0.05 \<rparr>)])"
proof -
  have s: "successful_of (sample_run 2000) \<noteq> []" by (simp add: successful_sample_run)
  have l: "length (sample_run 2000) = 2001" by (simp add: sample_run_def)
  from analysis_value [OF s] show ?thesis
    unfolding successful_sample_run l
    by (simp add: sample_comparison_def accumulate_def bind_err_def truediv_def py_round_def Let_def)
qed

lemma successful_le: "length (successful_of cs) \<le> length cs"
  by (simp add: successful_of_def)

lemma rate_bounds:
  assumes "successful_of cs \<noteq> []"
  shows "0 \<le> py_round (real (length (successful_of cs)) / real (length cs) * 100) 1
       \<and> py_round (real (length (successful_of cs)) / real (length cs) * 100) 1 \<le> 100"
proof -
  let ?x = "real (length (successful_of cs)) / real (length cs) * 100"
  from assms have pos: "0 < length cs" by (auto simp: successful_of_def)
  have "0 \<le> ?x" by simp
  moreover have "?x \<le> 100"
    using successful_le [of cs] pos by (simp add: pos_divide_le_eq)
  ultimately have "of_int 0 \<le> ?x * 10 ^ 1" "?x * 10 ^ 1 \<le> of_int 1000" by simp_all
  from py_round_bounds [OF this] show ?thesis by simp
qed

text \<open>
  C8, amended: when at least one comparison is successful the aggregator returns an
  analysis whose \<open>success_rate\<close> is the successful count over the total count, as a
  percentage rounded to one decimal: a multiple of one tenth that is at most one twentieth
  away from the percentage, hence the nearest tenth wherever the percentage is not exactly
  halfway between two tenths, and one of the two neighbours where it is. It lies between 0
  and 100, 0 included: a positive rate below 0.05 percent is reported as 0.0. When no
  comparison is successful the aggregator returns an error indicator and no rate.
\<close>

theorem success_rate_nearest_tenth:
  "(successful_of cs \<noteq> [] \<longrightarrow>
      (\<exists>ov ps cb. generate_performance_analysis cs = Inr (Analysis ov ps cb)
         \<and> (\<exists>k::int. success_rate ov = of_int k / 10)
         \<and> \<bar>success_rate ov - real (length (successful_of cs)) / real (length cs) * 100\<bar> \<le> 1 / 20
         \<and> 0 \<le> success_rate ov \<and> success_rate ov \<le> 100))
   \<and> (successful_of cs = [] \<longrightarrow>
        (\<exists>msg. generate_performance_analysis cs = Inr (AnalysisError msg)))"
proof (intro conjI impI)
  assume s: "successful_of cs \<noteq> []"
  let ?x = "real (length (successful_of cs)) / real (length cs) * 100"
  from analysis_value [OF s] obtain ov ps cb where
    a: "generate_performance_analysis cs = Inr (Analysis ov ps cb)"
    and v: "success_rate ov = py_round ?x 1"
    by fastforce
  from py_round_nearest [of ?x 1] obtain k :: int where
    "py_round ?x 1 = of_int k / 10" "\<bar>py_round ?x 1 - ?x\<bar> \<le> 1 / 20" by auto
  with v have "(\<exists>k::int. success_rate ov = of_int k / 10)" "\<bar>success_rate ov - ?x\<bar> \<le> 1 / 20"
    by auto
  moreover from rate_bounds [OF s] v have "0 \<le> success_rate ov" "success_rate ov \<le> 100"
    by simp_all
  ultimately show "\<exists>ov ps cb. generate_performance_analysis cs = Inr (Analysis ov ps cb)
         \<and> (\<exists>k::int. success_rate ov = of_int k / 10)
         \<and> \<bar>success_rate ov - ?x\<bar> \<le> 1 / 20
         \<and> 0 \<le> success_rate ov \<and> success_rate ov \<le> 100"
    using a by blast
next
  assume "successful_of cs = []"
  then show "\<exists>msg. generate_performance_analysis cs = Inr (AnalysisError msg)"
    by (auto simp: generate_performance_analysis_def successful_of_def)
qed

theorem success_rate_nearest_tenth_witness:
  "successful_of [sample_comparison (numbered 1) False, sample_comparison (numbered 2) True,
                  sample_comparison (numbered 3) False] \<noteq> []
   \<and> (\<exists>ov ps cb. generate_performance_analysis
         [sample_comparison (numbered 1) False, sample_comparison (numbered 2) True,
          sample_comparison (numbered 3) False] = Inr (Analysis ov ps cb)
        \<and> (\<exists>k::int. success_rate ov = of_int k / 10)
        \<and> \<bar>success_rate ov - 200 / 3\<bar> \<le> 1 / 20
        \<and> 0 \<le> success_rate ov \<and> success_rate ov \<le> 100)
   \<and> successful_of [sample_comparison (numbered 2) True] = []
   \<and> (\<exists>msg. generate_performance_analysis [sample_comparison (numbered 2) True]
               = Inr (AnalysisError msg))"
proof -
  have s: "successful_of [sample_comparison (numbered 1) False, sample_comparison (numbered 2) True,
                  sample_comparison (numbered 3) False]
           = [sample_comparison (numbered 1) False, sample_comparison (numbered 3) False]"
    by (simp add: successful_of_def sample_comparison_def)
  have e: "successful_of [sample_comparison (numbered 2) True] = []"
    by (simp add: successful_of_def sample_comparison_def)
  from success_rate_nearest_tenth [of "[sample_comparison (numbered 1) False,
         sample_comparison (numbered 2) True, sample_comparison (numbered 3) False]"]
    success_rate_nearest_tenth [of "[sample_comparison (numbered 2) True]"]
  show ?thesis
    unfolding s e by simp
qed

text \<open>
  C10, amended: the aggregator returns for every list of comparisons, so no division in
  it has a zero divisor. In a run that returns an analysis the total count is at least 1,
  the successful subset is not empty, the count of every category of the breakdown is at
  least 1, and the success ratio before rounding is strictly positive; the reported
  \<open>success_rate\<close>, rounded to one decimal, is at least 0.
\<close>

theorem analysis_divisors_positive:
  "(\<exists>r. generate_performance_analysis cs = Inr r)
   \<and> (\<forall>ov ps cb. generate_performance_analysis cs = Inr (Analysis ov ps cb) \<longrightarrow>
          1 \<le> length cs \<and> total_comparisons ov = length cs
        \<and> 1 \<le> length (successful_of cs) \<and> successful_comparisons ov = length (successful_of cs)
        \<and> (\<forall>(k, e) \<in> set cb. 1 \<le> cat_count e)
        \<and> 0 < real (length (successful_of cs)) / real (length cs)
        \<and> 0 \<le> success_rate ov)"
proof (intro conjI allI impI)
  show "\<exists>r. generate_performance_analysis cs = Inr r" by (rule analysis_total)
next
  fix ov ps cb
  assume r: "generate_performance_analysis cs = Inr (Analysis ov ps cb)"
  note a = analysis_returned [OF r]
  from a have ne: "cs \<noteq> []" and s: "successful_of cs \<noteq> []" by simp_all
  show "1 \<le> length cs" using ne by (cases cs) simp_all
  show "total_comparisons ov = length cs" using a by simp
  show "1 \<le> length (successful_of cs)" using s by (cases "successful_of cs") simp_all
  show "successful_comparisons ov = length (successful_of cs)" using a by simp
  show "0 < real (length (successful_of cs)) / real (length cs)" using ne s by simp
  show "0 \<le> success_rate ov" using a rate_bounds [OF s] by simp
  show "\<forall>(k, e) \<in> set cb. 1 \<le> cat_count e"
  proof -
    let ?t = "fold accumulate (successful_of cs) []"
    from a have cb: "average_categories ?t = Inr cb" by simp
    have inv: "\<forall>k e. map_of ?t k = Some e \<longrightarrow> 1 \<le> cat_count e" "distinct (map fst ?t)"
      using fold_accumulate [of "[]" "successful_of cs"] by simp_all
    then have "\<forall>p \<in> set ?t. 1 \<le> cat_count (snd p)" by fastforce
    then have "\<forall>n \<in> set (map (\<lambda>p. cat_count (snd p)) ?t). 1 \<le> n" by simp
    then have "\<forall>n \<in> set (map (\<lambda>p. cat_count (snd p)) cb). 1 \<le> n"
      using average_categories_shape [OF cb] by simp
    then show ?thesis by auto
  qed
qed

lemma analysis_categories:
  assumes "generate_performance_analysis cs = Inr (Analysis ov ps cb)"
  shows "set (map fst cb) = cmp_category ` set (successful_of cs)"
proof -
  from analysis_returned [OF assms]
  have cb: "average_categories (fold accumulate (successful_of cs) []) = Inr cb" by simp
  have "set (map fst cb) = set (map fst (fold accumulate (successful_of cs) []))"
    using average_categories_shape [OF cb] by simp
  also have "\<dots> = cmp_category ` set (successful_of cs)"
    using fold_accumulate [of "[]" "successful_of cs"] by simp
  finally show ?thesis .
qed

text \<open>
  C9. The category of every comparison is the \<open>category\<close> field of the hosted record
  indexed under its prompt id, or \<open>unknown\<close> when that record has none. The local
  records' categories are not read: replacing them by any others leaves the comparator's
  result unchanged. The keys of the category breakdown are the categories of the
  successful comparisons.
\<close>

theorem category_from_hosted:
  "(\<forall>cs c. create_side_by_side_comparison a b = Inr cs \<and> c \<in> set cs \<longrightarrow>
      (\<exists>h. indexed a (cmp_prompt_id c) = Some h
          \<and> cmp_category c = get_default (category h) (str ''unknown'')))
   \<and> create_side_by_side_comparison a (map (\<lambda>r. r \<lparr> category := g r \<rparr>) b)
       = create_side_by_side_comparison a b
   \<and> (\<forall>cs ov ps cb. generate_performance_analysis cs = Inr (Analysis ov ps cb) \<longrightarrow>
         set (map fst cb) = cmp_category ` set (successful_of cs))"
proof (intro conjI allI impI)
  fix cs c
  assume "create_side_by_side_comparison a b = Inr cs \<and> c \<in> set cs"
  then obtain h l where "indexed a (cmp_prompt_id c) = Some h"
    "build_comparison (cmp_prompt_id c) h l = Inr c"
    using create_member [of a b cs c] by blast
  then show "\<exists>h. indexed a (cmp_prompt_id c) = Some h
          \<and> cmp_category c = get_default (category h) (str ''unknown'')"
    using build_comparison_category by blast
next
  show "create_side_by_side_comparison a (map (\<lambda>r. r \<lparr> category := g r \<rparr>) b)
       = create_side_by_side_comparison a b" by (rule create_local_category)
next
  fix cs ov ps cb
  assume "generate_performance_analysis cs = Inr (Analysis ov ps cb)"
  then show "set (map fst cb) = cmp_category ` set (successful_of cs)"
    by (rule analysis_categories)
qed

lemma sample_analysis:
  "generate_performance_analysis
     [sample_comparison (numbered 1) False, sample_comparison (numbered 2) True,
      sample_comparison (numbered 3) False] =
     Inr (Analysis
       \<lparr> total_comparisons = 3, successful_comparisons = 2, success_rate = 66.7,
         avg_latency_ratio = 2, avg_response_length_ratio = 1 / 2, total_cost_savings = 0.1 \<rparr>
       \<lparr> local_vs_openai_speed = (str ''Slower'', 1),
         local_vs_openai_length = (str ''Shorter'', 1 / 2),
         cost_efficiency = 0.1 \<rparr>
       [(str ''reasoning'',
         \<lparr> cat_count = 2, cat_avg_latency_ratio = 2, cat_avg_length_ratio = 1 / 2,
           cat_total_cost_savings = 0.1 \<rparr>)])"
proof -
  have s: "successful_of [sample_comparison (numbered 1) False, sample_comparison (numbered 2) True,
                  sample_comparison (numbered 3) False]
           = [sample_comparison (numbered 1) False, sample_comparison (numbered 3) False]"
    by (simp add: successful_of_def sample_comparison_def)
  have n: "[sample_comparison (numbered 1) False, sample_comparison (numbered 3) False] \<noteq> []"
    by simp
  from analysis_value [of "[sample_comparison (numbered 1) False,
      sample_comparison (numbered 2) True, sample_comparison (numbered 3) False]", unfolded s, OF n]
  show ?thesis
    by (simp add: sample_comparison_def accumulate_def bind_err_def truediv_def py_round_def Let_def)
qed

theorem analysis_divisors_positive_witness:
  "generate_performance_analysis
     [sample_comparison (numbered 1) False, sample_comparison (numbered 2) True,
      sample_comparison (numbered 3) False] =
     Inr (Analysis
       \<lparr> total_comparisons = 3, successful_comparisons = 2, success_rate = 66.7,
         avg_latency_ratio = 2, avg_response_length_ratio = 1 / 2, total_cost_savings = 0.1 \<rparr>
       \<lparr> local_vs_openai_speed = (str ''Slower'', 1),
         local_vs_openai_length = (str ''Shorter'', 1 / 2),
         cost_efficiency = 0.1 \<rparr>
       [(str ''reasoning'',
         \<lparr> cat_count = 2, cat_avg_latency_ratio = 2, cat_avg_length_ratio = 1 / 2,
           cat_total_cost_savings = 0.1 \<rparr>)])
   \<and> 1 \<le> length (successful_of [sample_comparison (numbered 1) False,
          sample_comparison (numbered 2) True, sample_comparison (numbered 3) False])
   \<and> list_all (\<lambda>(k, e). 1 \<le> cat_count e)
         [(str ''reasoning'',
           \<lparr> cat_count = 2, cat_avg_latency_ratio = 2, cat_avg_length_ratio = 1 / 2,
             cat_total_cost_savings = 0.1 \<rparr>)]
   \<and> 0 < real (length (successful_of [sample_comparison (numbered 1) False,
          sample_comparison (numbered 2) True, sample_comparison (numbered 3) False]))
         / real (length [sample_comparison (numbered 1) False,
          sample_comparison (numbered 2) True, sample_comparison (numbered 3) False])"
  using analysis_divisors_positive [of "[sample_comparison (numbered 1) False,
          sample_comparison (numbered 2) True, sample_comparison (numbered 3) False]"]
    sample_analysis
  by simp

text \<open>
  C10, as stated: every returned analysis has a \<open>success_rate\<close> strictly greater than 0.
  A run of 3001 comparisons of which the first one alone is successful returns an analysis
  whose \<open>success_rate\<close> is 0.
\<close>

theorem returned_rate_zero_counterexample:
  "generate_performance_analysis (sample_run_front 3000) =
     Inr (Analysis
       \<lparr> total_comparisons = 3001, successful_comparisons = 1, success_rate = 0,
         avg_latency_ratio = 2, avg_response_length_ratio = 1 / 2, total_cost_savings = 0.05 \<rparr>
       \<lparr> local_vs_openai_speed = (str ''Slower'', 1),
         local_vs_openai_length = (str ''Shorter'', 1 / 2),
         cost_efficiency = 0.05 \<rparr>
       [(str ''reasoning'',
         \<lparr> cat_count = 1, cat_avg_latency_ratio = 2, cat_avg_length_ratio = 1 / 2,
           cat_total_cost_savings = 0.05 \<rparr>)])"
proof -
  have s: "successful_of (sample_run_front 3000) \<noteq> []" by (simp add: successful_sample_run_front)
  have l: "length (sample_run_front 3000) = 3001" by (simp add: sample_run_front_def)
  from analysis_value [OF s] show ?thesis
    unfolding successful_sample_run_front l
    by (simp add: sample_comparison_def accumulate_def bind_err_def truediv_def py_round_def Let_def)
qed

theorem category_from_hosted_witness:
  "create_side_by_side_comparison
     [sample_hosted (numbered 2) False, sample_hosted (numbered 1) True,
      sample_hosted (numbered 3) False]
     [sample_local (numbered 1), sample_local (numbered 2), sample_local (numbered 9)]
   = Inr [sample_comparison (numbered 1) True, sample_comparison (numbered 2) False]
   \<and> sample_comparison (numbered 1) True
       \<in> set [sample_comparison (numbered 1) True, sample_comparison (numbered 2) False]
   \<and> (\<exists>h. indexed [sample_hosted (numbered 2) False, sample_hosted (numbered 1) True,
                    sample_hosted (numbered 3) False]
              (cmp_prompt_id (sample_comparison (numbered 1) True)) = Some h
          \<and> cmp_category (sample_comparison (numbered 1) True)
              = get_default (category h) (str ''unknown''))
   \<and> cmp_category (sample_comparison (numbered 1) True) = str ''reasoning''
   \<and> category (sample_local (numbered 1)) = Some (str ''coding'')
   \<and> set (map fst [(str ''reasoning'',
         \<lparr> cat_count = 2, cat_avg_latency_ratio = 2, cat_avg_length_ratio = 1 / 2,
           cat_total_cost_savings = 0.1 \<rparr>)])
       = cmp_category ` set (successful_of [sample_comparison (numbered 1) False,
           sample_comparison (numbered 2) True, sample_comparison (numbered 3) False])"
proof -
  have m: "sample_comparison (numbered 1) True
       \<in> set [sample_comparison (numbered 1) True, sample_comparison (numbered 2) False]" by simp
  note t = category_from_hosted
    [of "[sample_hosted (numbered 2) False, sample_hosted (numbered 1) True,
          sample_hosted (numbered 3) False]"
        "[sample_local (numbered 1), sample_local (numbered 2), sample_local (numbered 9)]"]
  from t sample_analysis
  have k: "set (map fst [(str ''reasoning'',
         \<lparr> cat_count = 2, cat_avg_latency_ratio = 2, cat_avg_length_ratio = 1 / 2,
           cat_total_cost_savings = 0.1 \<rparr>)])
       = cmp_category ` set (successful_of [sample_comparison (numbered 1) False,
           sample_comparison (numbered 2) True, sample_comparison (numbered 3) False])"
    by blast
  from t sample_create m
  have "\<exists>h. indexed [sample_hosted (numbered 2) False, sample_hosted (numbered 1) True,
                    sample_hosted (numbered 3) False]
              (cmp_prompt_id (sample_comparison (numbered 1) True)) = Some h
          \<and> cmp_category (sample_comparison (numbered 1) True)
              = get_default (category h) (str ''unknown'')"
    by blast
  moreover have "cmp_category (sample_comparison (numbered 1) True) = str ''reasoning''"
    "category (sample_local (numbered 1)) = Some (str ''coding'')"
    by (simp_all add: sample_comparison_def sample_local_def)
  ultimately show ?thesis using sample_create m k by blast
qed

end
